theory Spec2Isabelle
  imports Complex_Main
begin

section \<open>JavaScript primitives used by the converter\<close>

text \<open>
  A JavaScript \<open>number\<close> is a double. It is modelled by the real number it stands for, and
  the arithmetic of the time codes, the trim marks and the trim duration is rounded with
  \<open>fl\<close> as the source's doubles are. The integer-valued settings (quality, frame rate,
  pixel sizes) and every value produced by \<open>Math.floor\<close>, \<open>Math.round\<close> or \<open>parseInt\<close>
  are \<open>int\<close>. The colour count, the two aspect-ratio helpers and the progress percentage
  are computed over exact reals. The values that are not real numbers (\<open>NaN\<close> and the
  infinities) appear as constructors of \<open>jsnum\<close> where the source tests for them.
\<close>

datatype jsnum = Num real | NaN | PosInf | NegInf

fun Number_isFinite :: "jsnum \<Rightarrow> bool" where
  "Number_isFinite (Num _) = True"
| "Number_isFinite _ = False"

definition Math_round :: "real \<Rightarrow> int" where
  \<comment> \<open>\<open>Math.round\<close>: the nearest integer, a tie going towards plus infinity.\<close>
  "Math_round x = \<lfloor>x + 1 / 2\<rfloor>"

definition trunc :: "real \<Rightarrow> int" where
  "trunc x = (if 0 \<le> x then \<lfloor>x\<rfloor> else \<lceil>x\<rceil>)"

definition js_rem :: "real \<Rightarrow> real \<Rightarrow> real" where
  \<comment> \<open>The \<open>%\<close> operator for a non-zero divisor: the remainder has the sign of the dividend.\<close>
  "js_rem x y = x - y * of_int (trunc (x / y))"

subsection \<open>Double-precision rounding\<close>

text \<open>
  \<open>fl x\<close> is the double nearest to the real \<open>x\<close>, a tie going to the even significand:
  the binary64 rounding with 53 significant bits. The exponent range is not bounded here,
  so \<open>fl\<close> is the rounding of IEEE-754 for \<open>2^-1022 \<le> |x| < 2^1024\<close> and for 0; overflow
  and the coarser rounding of subnormal results are not modelled. \<open>ulp x\<close> is the spacing
  of the doubles in the binade of \<open>x\<close>, and \<open>is_double x\<close> holds of every double, subnormal
  ones included.
\<close>

fun bit_length :: "nat \<Rightarrow> nat" where
  "bit_length n = (if n = 0 then 0 else Suc (bit_length (n div 2)))"

declare bit_length.simps [simp del]

definition ulp :: "real \<Rightarrow> real" where
  "ulp x =
     (if 1 \<le> \<bar>x\<bar> then 2 ^ (bit_length (nat \<lfloor>\<bar>x\<bar>\<rfloor>) - 1) / 2 ^ 52
      else 1 / (2 ^ 52 * 2 ^ bit_length (nat (\<lceil>1 / \<bar>x\<bar>\<rceil> - 1))))"

definition round_half_even :: "real \<Rightarrow> int" where
  "round_half_even y =
     (let n = \<lfloor>y\<rfloor>; r = y - of_int n
      in if r < 1 / 2 then n else if 1 / 2 < r then n + 1 else if even n then n else n + 1)"

definition fl :: "real \<Rightarrow> real" where
  "fl x = of_int (round_half_even (x / ulp x)) * ulp x"

definition is_double :: "real \<Rightarrow> bool" where
  "is_double x = (fl x = x)"

subsection \<open>Numbers to strings\<close>

definition digit_char :: "nat \<Rightarrow> char" where
  \<comment> \<open>The decimal digit \<open>d < 10\<close> as a character.\<close>
  "digit_char d = ''0123456789'' ! d"

fun nat_digits :: "nat \<Rightarrow> string" where
  "nat_digits n = (if n < 10 then [digit_char n] else nat_digits (n div 10) @ [digit_char (n mod 10)])"

declare nat_digits.simps [simp del]

definition Number_toString :: "int \<Rightarrow> string" where
  \<comment> \<open>\<open>toString()\<close> and template interpolation of an integer-valued number.\<close>
  "Number_toString i = (if i < 0 then CHR ''-'' # nat_digits (nat (- i)) else nat_digits (nat i))"

definition padStart :: "nat \<Rightarrow> char \<Rightarrow> string \<Rightarrow> string" where
  "padStart n c s = replicate (n - length s) c @ s"

definition toFixed3 :: "real \<Rightarrow> string" where
  \<comment> \<open>\<open>x.toFixed(3)\<close> for \<open>|x| < 10^21\<close>: with \<open>n\<close> the integer for which \<open>n / 1000\<close> is
      nearest to \<open>|x|\<close> (the larger one on a tie), the sign, the decimal digits of
      \<open>n div 1000\<close>, a point and the three digits of \<open>n mod 1000\<close>.\<close>
  "toFixed3 x =
     (let n = nat \<lfloor>\<bar>x\<bar> * 1000 + 1 / 2\<rfloor>
      in (if x < 0 then ''-'' else '''') @ nat_digits (n div 1000) @ ''.''
         @ [digit_char (n div 100 mod 10), digit_char (n div 10 mod 10), digit_char (n mod 10)])"

subsection \<open>Strings to numbers\<close>

definition is_digit :: "char \<Rightarrow> bool" where
  "is_digit c = (48 \<le> (of_char c :: nat) \<and> (of_char c :: nat) \<le> 57)"

definition digit_val :: "char \<Rightarrow> nat" where
  "digit_val c = of_char c - 48"

definition is_space :: "char \<Rightarrow> bool" where
  \<comment> \<open>The ASCII white space that \<open>parseInt\<close> skips: tab, line feed, vertical tab, form
      feed, carriage return and space.\<close>
  "is_space c = ((9 \<le> (of_char c :: nat) \<and> (of_char c :: nat) \<le> 13) \<or> (of_char c :: nat) = 32)"

definition digits_val :: "string \<Rightarrow> nat" where
  "digits_val ds = foldl (\<lambda>acc c. 10 * acc + digit_val c) 0 ds"

definition parseInt10 :: "string \<Rightarrow> int option" where
  \<comment> \<open>\<open>Number.parseInt(s, 10)\<close>; \<open>None\<close> stands for \<open>NaN\<close>.\<close>
  "parseInt10 s =
     (let t = dropWhile is_space s;
          neg = (t \<noteq> [] \<and> hd t = CHR ''-'');
          u = (if t \<noteq> [] \<and> (hd t = CHR ''-'' \<or> hd t = CHR ''+'') then tl t else t);
          ds = takeWhile is_digit u
      in if ds = [] then None
         else Some (if neg then - int (digits_val ds) else int (digits_val ds)))"

fun split_on :: "char \<Rightarrow> string \<Rightarrow> string list" where
  "split_on c [] = [[]]"
| "split_on c (x # xs) =
     (if x = c then [] # split_on c xs
      else (case split_on c xs of [] \<Rightarrow> [[x]] | y # ys \<Rightarrow> (x # y) # ys))"

fun starts_with :: "string \<Rightarrow> string \<Rightarrow> bool" where
  "starts_with [] s = True"
| "starts_with (p # ps) [] = False"
| "starts_with (p # ps) (c # cs) = (p = c \<and> starts_with ps cs)"

fun str_includes :: "string \<Rightarrow> string \<Rightarrow> bool" where
  \<comment> \<open>\<open>s.includes(p)\<close>: \<open>p\<close> occurs in \<open>s\<close> as a contiguous substring.\<close>
  "str_includes [] p = (p = [])"
| "str_includes (c # cs) p = (starts_with p (c # cs) \<or> str_includes cs p)"

fun join :: "string \<Rightarrow> string list \<Rightarrow> string" where
  "join sep [] = []"
| "join sep [x] = x"
| "join sep (x # y # ys) = x @ sep @ join sep (y # ys)"

section \<open>Video utilities (aspect ratio and settings validation)\<close>

record ConversionSettings =
  quality :: int
  frameRate :: int
  width :: int
  height :: int
  startTime :: real
  endTime :: real

record VideoMetadata =
  duration :: real
  vwidth :: int
  vheight :: int
  vframeRate :: int
  aspectRatio :: real



record validation =
  isValid :: bool
  error :: "string option"

definition validateSettings :: "'a ConversionSettings_scheme \<Rightarrow> validation" where
  "validateSettings s =
     (if quality s < 1 \<or> quality s > 100 then
        \<lparr>isValid = False, error = Some ''Quality must be between 1 and 100''\<rparr>
      else if frameRate s \<notin> set [10, 15, 20, 24, 30] then
        \<lparr>isValid = False, error = Some ''Frame rate must be 10, 15, 20, 24, or 30 fps''\<rparr>
      else if width s < 100 \<or> width s > 1920 then
        \<lparr>isValid = False, error = Some ''Width must be between 100 and 1920 pixels''\<rparr>
      else if height s < 100 \<or> height s > 1920 then
        \<lparr>isValid = False, error = Some ''Height must be between 100 and 1920 pixels''\<rparr>
      else \<lparr>isValid = True, error = None\<rparr>)"

section \<open>Timeline: time codes and trim marks\<close>

definition formatTime :: "real \<Rightarrow> string" where
  \<comment> \<open>The division and the multiplication round; \<open>%\<close> and \<open>Math.floor\<close> are exact.\<close>
  "formatTime seconds =
     (let mins = \<lfloor>fl (seconds / 60)\<rfloor>;
          secs = \<lfloor>js_rem seconds 60\<rfloor>;
          ms = \<lfloor>fl (js_rem seconds 1 * 100)\<rfloor>
      in Number_toString mins @ '':'' @ padStart 2 (CHR ''0'') (Number_toString secs)
         @ ''.'' @ padStart 2 (CHR ''0'') (Number_toString ms))"

definition number_of_int :: "int \<Rightarrow> real" where
  \<comment> \<open>The double that \<open>parseInt\<close> returns for the integer it has read.\<close>
  "number_of_int i = fl (of_int i)"

definition fraction_part :: "string list \<Rightarrow> jsnum" where
  \<comment> \<open>\<open>secsParts[1] ? Number.parseInt(secsParts[1], 10) / 100 : 0\<close>: a missing or empty
      second field is falsy.\<close>
  "fraction_part secsParts =
     (case secsParts of
        _ # f # _ \<Rightarrow>
          (if f = [] then Num 0
           else (case parseInt10 f of None \<Rightarrow> NaN | Some i \<Rightarrow> Num (fl (number_of_int i / 100))))
      | _ \<Rightarrow> Num 0)"

definition add_fraction :: "real \<Rightarrow> jsnum \<Rightarrow> jsnum" where
  \<comment> \<open>\<open>whole + ms\<close>, where \<open>ms\<close> may be \<open>NaN\<close>.\<close>
  "add_fraction whole ms = (case ms of Num f \<Rightarrow> Num (fl (whole + f)) | _ \<Rightarrow> ms)"

definition parseTime :: "string \<Rightarrow> jsnum option" where
  \<comment> \<open>\<open>None\<close> is the source's \<open>null\<close>. A non-numeric fraction is not caught by the
      \<open>isNaN\<close> tests and comes back as \<open>Some NaN\<close>. The sum \<open>mins * 60 + secs + ms\<close> is
      evaluated from the left, each operation rounding.\<close>
  "parseTime timeStr =
     (case split_on CHR '':'' timeStr of
        [p0, p1] \<Rightarrow>
          (let secsParts = split_on CHR ''.'' p1;
               ms = fraction_part secsParts
           in (case (parseInt10 p0, parseInt10 (hd secsParts)) of
                 (Some mins, Some secs) \<Rightarrow>
                   Some (add_fraction (fl (fl (number_of_int mins * 60) + number_of_int secs)) ms)
               | _ \<Rightarrow> None))
      | [p0] \<Rightarrow>
          (let secsParts = split_on CHR ''.'' p0;
               ms = fraction_part secsParts
           in (case parseInt10 (hd secsParts) of
                 Some secs \<Rightarrow> Some (add_fraction (number_of_int secs) ms)
               | None \<Rightarrow> None))
      | _ \<Rightarrow> None)"

text \<open>
  The timeline component keeps the trim window in local state. A mark handler either
  returns early (\<open>None\<close>: nothing is set and \<open>onTimeRangeChange\<close> is not called) or sets
  one end of the window, rewrites its input box and reports the window to the parent.
\<close>

record timeline =
  localStartTime :: real
  localEndTime :: real
  startTimeInput :: string
  endTimeInput :: string

definition handleMarkIn :: "bool \<Rightarrow> jsnum \<Rightarrow> timeline \<Rightarrow> (timeline \<times> real \<times> real) option" where
  \<comment> \<open>\<open>currentTime\<close> defaults to 0 and is never \<open>undefined\<close> here. The literal \<open>0.1\<close> is the
      double \<open>fl (1 / 10)\<close> and the subtraction rounds. The window ends are real, so
      \<open>newStartTime\<close> is finite and the second \<open>isFinite\<close> test always passes.\<close>
  "handleMarkIn disabled currentTime t =
     (if disabled \<or> \<not> Number_isFinite currentTime then None
      else (case currentTime of
              Num ct \<Rightarrow>
                (let newStartTime = max 0 (min ct (fl (localEndTime t - fl (1 / 10))))
                 in Some (t\<lparr>localStartTime := newStartTime, startTimeInput := formatTime newStartTime\<rparr>,
                          newStartTime, localEndTime t))
            | _ \<Rightarrow> None))"

definition handleMarkOut :: "bool \<Rightarrow> jsnum \<Rightarrow> real \<Rightarrow> timeline \<Rightarrow> (timeline \<times> real \<times> real) option" where
  "handleMarkOut disabled currentTime dur t =
     (if disabled \<or> \<not> Number_isFinite currentTime then None
      else (case currentTime of
              Num ct \<Rightarrow>
                (let newEndTime = min dur (max ct (fl (localStartTime t + fl (1 / 10))))
                 in Some (t\<lparr>localEndTime := newEndTime, endTimeInput := formatTime newEndTime\<rparr>,
                          localStartTime t, newEndTime))
            | _ \<Rightarrow> None))"

definition trim_ok :: "real \<Rightarrow> real \<Rightarrow> real \<Rightarrow> bool" where
  \<comment> \<open>A trim window of at least a tenth of a second inside \<open>[0, d]\<close>.\<close>
  "trim_ok d s e = (0 \<le> s \<and> s \<le> e - 1 / 10 \<and> e \<le> d)"

section \<open>The FFmpeg service\<close>

subsection \<open>Command builder\<close>

definition maxColors :: "int \<Rightarrow> int" where
  "maxColors q = \<lfloor>16 + (of_int q / 100) * 240 :: real\<rfloor>"

definition filterComplex :: "'a ConversionSettings_scheme \<Rightarrow> string" where
  "filterComplex s =
     join '',''
       [''fps='' @ Number_toString (frameRate s),
        ''scale='' @ Number_toString (width s) @ '':'' @ Number_toString (height s) @ '':flags=lanczos'',
        ''split[s0][s1]'',
        ''[s0]palettegen=max_colors='' @ Number_toString (maxColors (quality s)) @ ''[p]'',
        ''[s1][p]paletteuse=dither=bayer:bayer_scale=5'']"

definition buildFFmpegCommand :: "string \<Rightarrow> string \<Rightarrow> 'a ConversionSettings_scheme \<Rightarrow> string list" where
  "buildFFmpegCommand inputFile outputFile s =
     (let trimDuration = fl (endTime s - startTime s)
      in [''-ss'', toFixed3 (startTime s),
          ''-i'', inputFile,
          ''-t'', toFixed3 trimDuration,
          ''-vf'', filterComplex s,
          ''-loop'', ''0'',
          outputFile])"

definition read_fixed3 :: "string \<Rightarrow> real option" where
  \<comment> \<open>The number that an argument of the form \<open>[-]digits.ddd\<close> denotes, as the engine
      reads a time given in seconds with three decimals; \<open>None\<close> for any other string.\<close>
  "read_fixed3 str =
     (let neg = (str \<noteq> [] \<and> hd str = CHR ''-'');
          body = (if neg then tl str else str)
      in (case split_on CHR ''.'' body of
            [ip, fp] \<Rightarrow>
              if ip \<noteq> [] \<and> list_all is_digit ip \<and> length fp = 3 \<and> list_all is_digit fp
              then Some ((if neg then - 1 else 1)
                         * (real (digits_val ip) + real (digits_val fp) / 1000))
              else None
          | _ \<Rightarrow> None))"

subsection \<open>Progress from the engine's log\<close>

text \<open>
  The log listener looks for \<open>/Duration: (\d{2}):(\d{2}):(\d{2})/\<close> and
  \<open>/time=(\d{2}):(\d{2}):(\d{2})/\<close> in every message. \<open>match_hms p s\<close> is the leftmost
  match of the literal \<open>p\<close> followed by three two-digit groups, with the groups already
  read as decimal numbers.
\<close>

fun two_digits :: "string \<Rightarrow> (nat \<times> string) option" where
  "two_digits (a # b # rest) =
     (if is_digit a \<and> is_digit b then Some (10 * digit_val a + digit_val b, rest) else None)"
| "two_digits _ = None"

fun colon_then :: "string \<Rightarrow> string option" where
  "colon_then [] = None"
| "colon_then (c # cs) = (if c = CHR '':'' then Some cs else None)"

definition hms_at :: "string \<Rightarrow> (nat \<times> nat \<times> nat) option" where
  "hms_at s =
     (case two_digits s of
        None \<Rightarrow> None
      | Some (h, s1) \<Rightarrow>
          (case colon_then s1 of
             None \<Rightarrow> None
           | Some s2 \<Rightarrow>
               (case two_digits s2 of
                  None \<Rightarrow> None
                | Some (m, s3) \<Rightarrow>
                    (case colon_then s3 of
                       None \<Rightarrow> None
                     | Some s4 \<Rightarrow>
                         (case two_digits s4 of
                            None \<Rightarrow> None
                          | Some (sec, _) \<Rightarrow> Some (h, m, sec))))))"

fun match_hms :: "string \<Rightarrow> string \<Rightarrow> (nat \<times> nat \<times> nat) option" where
  "match_hms p [] = None"
| "match_hms p (c # cs) =
     (if starts_with p (c # cs) then
        (case hms_at (drop (length p) (c # cs)) of
           Some r \<Rightarrow> Some r
         | None \<Rightarrow> match_hms p cs)
      else match_hms p cs)"

definition hms_seconds :: "nat \<times> nat \<times> nat \<Rightarrow> nat" where
  "hms_seconds t = (case t of (h, m, s) \<Rightarrow> h * 3600 + m * 60 + s)"

text \<open>
  The listener's closure holds \<open>videoDuration\<close> and \<open>lastProgressUpdate\<close>. A log event is
  the message together with the value \<open>Date.now()\<close> has when it arrives. \<open>on_log\<close> returns
  the new closure state and the value passed to \<open>onProgress\<close>, if the callback is called.
\<close>

record log_state =
  videoDuration :: nat
  lastProgressUpdate :: int

type_synonym log_event = "int \<times> string"

definition PROGRESS_THROTTLE :: int where
  "PROGRESS_THROTTLE = 100"

definition on_log :: "log_state \<Rightarrow> log_event \<Rightarrow> log_state \<times> real option" where
  "on_log st ev =
     (case ev of (now, message) \<Rightarrow>
        (let st1 = (case match_hms ''Duration: '' message of
                      Some d \<Rightarrow> st\<lparr>videoDuration := hms_seconds d\<rparr>
                    | None \<Rightarrow> st)
         in (case match_hms ''time='' message of
               Some t \<Rightarrow>
                 (if videoDuration st1 > 0 then
                    (if now - lastProgressUpdate st1 \<ge> PROGRESS_THROTTLE then
                       (st1\<lparr>lastProgressUpdate := now\<rparr>,
                        Some (min (real (hms_seconds t) / real (videoDuration st1) * 100) 100))
                     else (st1, None))
                  else (st1, None))
             | None \<Rightarrow> (st1, None))))"

fun run_log :: "log_state \<Rightarrow> log_event list \<Rightarrow> real list" where
  "run_log st [] = []"
| "run_log st (ev # evs) =
     (case on_log st ev of
        (st', None) \<Rightarrow> run_log st' evs
      | (st', Some p) \<Rightarrow> p # run_log st' evs)"

subsection \<open>The service object and the engine behind it\<close>

text \<open>
  The engine (an \<open>FFmpeg\<close> instance) is external: its private file system, the number of
  registered log listeners and whether an \<open>exec\<close> call is in flight are its state. What
  the engine and the browser do during one call is given by an environment: whether
  \<open>fetchFile\<close> and \<open>writeFile\<close> succeed, which log lines \<open>exec\<close> emits and how it settles.
  A JavaScript value that is thrown is either an \<open>Error\<close> with a message or something else.
\<close>

type_synonym bytes = "nat list"

datatype thrown = ErrorObj string | OtherValue

datatype 'a promise = Resolved 'a | Rejected thrown | Pending

record File =
  fileName :: string
  fileType :: string
  fileData :: bytes

record Blob =
  blobType :: string
  blobData :: bytes

record FFmpeg =
  files :: "string \<rightharpoonup> bytes"
  logListeners :: nat
  execInFlight :: bool

record FFmpegService =
  ffmpeg :: "FFmpeg option"
  loaded :: bool
  initPromise :: "unit promise option"

datatype exec_outcome =
    ExecReturns int "bytes option"
  | ExecRejects thrown
  | ExecNever

record conv_env =
  fetchFile_result :: "thrown + bytes"
  writeFile_result :: "thrown option"
  exec_log :: "log_event list"
  exec_result :: exec_outcome
  fs_missing :: thrown

definition isLoaded :: "FFmpegService \<Rightarrow> bool" where
  "isLoaded svc = (loaded svc \<and> ffmpeg svc \<noteq> None)"

definition conversion_failed :: "thrown \<Rightarrow> thrown" where
  "conversion_failed e =
     ErrorObj (''Video conversion failed: ''
               @ (case e of ErrorObj m \<Rightarrow> m | OtherValue \<Rightarrow> ''Unknown error'')
               @ ''. Please try a different video file or adjust the settings.'')"

definition inputFileName :: string where
  "inputFileName = ''input.mp4''"

definition outputFileName :: string where
  "outputFileName = ''output.gif''"

definition deleteFile :: "string \<Rightarrow> FFmpeg \<Rightarrow> FFmpeg" where
  "deleteFile name inst = inst\<lparr>files := (files inst)(name := None)\<rparr>"

text \<open>
  \<open>convertToGif\<close> returns the service after the call, the values passed to \<open>onProgress\<close>
  in order, and how the returned promise settles (\<open>Pending\<close>: it never does).
\<close>

definition convertToGif ::
  "FFmpegService \<Rightarrow> File \<Rightarrow> 'a ConversionSettings_scheme \<Rightarrow> conv_env
     \<Rightarrow> FFmpegService \<times> real list \<times> Blob promise" where
  "convertToGif svc videoFile settings env =
     (case ffmpeg svc of
        None \<Rightarrow>
          (svc, [], Rejected (ErrorObj ''FFmpeg is not initialized. Please call initialize() first.''))
      | Some inst \<Rightarrow>
          if \<not> loaded svc then
            (svc, [], Rejected (ErrorObj ''FFmpeg is not initialized. Please call initialize() first.''))
          else
            (case fetchFile_result env of
               Inl e \<Rightarrow> (svc, [], Rejected (conversion_failed e))
             | Inr staged \<Rightarrow>
                 (case writeFile_result env of
                    Some e \<Rightarrow> (svc, [], Rejected (conversion_failed e))
                  | None \<Rightarrow>
                      (let inst1 = inst\<lparr>files := (files inst)(inputFileName \<mapsto> staged),
                                        logListeners := logListeners inst + 1\<rparr>;
                           command = buildFFmpegCommand inputFileName outputFileName settings;
                           reported = run_log \<lparr>videoDuration = 0, lastProgressUpdate = 0\<rparr> (exec_log env)
                       in (case exec_result env of
                             ExecNever \<Rightarrow>
                               (svc\<lparr>ffmpeg := Some (inst1\<lparr>execInFlight := True\<rparr>)\<rparr>, reported, Pending)
                           | ExecRejects e \<Rightarrow>
                               (svc\<lparr>ffmpeg := Some inst1\<rparr>, reported, Rejected (conversion_failed e))
                           | ExecReturns code out \<Rightarrow>
                               (let inst2 = (case out of
                                               None \<Rightarrow> inst1
                                             | Some d \<Rightarrow> inst1\<lparr>files := (files inst1)(outputFileName \<mapsto> d)\<rparr>)
                                in (case files inst2 outputFileName of
                                      None \<Rightarrow>
                                        (svc\<lparr>ffmpeg := Some inst2\<rparr>, reported,
                                         Rejected (conversion_failed (fs_missing env)))
                                    | Some data \<Rightarrow>
                                        (case files inst2 inputFileName of
                                           None \<Rightarrow>
                                             (svc\<lparr>ffmpeg := Some inst2\<rparr>, reported,
                                              Rejected (conversion_failed (fs_missing env)))
                                         | Some _ \<Rightarrow>
                                             (svc\<lparr>ffmpeg := Some (deleteFile outputFileName
                                                                      (deleteFile inputFileName inst2))\<rparr>,
                                              reported @ [100],
                                              Resolved \<lparr>blobType = ''image/gif'', blobData = data\<rparr>)))))))))"

datatype load_outcome = LoadOk | LoadThrows thrown | LoadNever

definition init_error_message :: "thrown \<Rightarrow> string" where
  "init_error_message e =
     ''Failed to initialize FFmpeg. '' @
     (case e of
        ErrorObj m \<Rightarrow>
          if str_includes m ''timeout'' \<or> str_includes m ''timed out'' then
            ''The video processing library took too long to load. Please check your internet connection and try again.''
          else if str_includes m ''network'' \<or> str_includes m ''fetch'' then
            ''Could not download the video processing library. Please check your internet connection and try again.''
          else if str_includes m ''WASM'' \<or> str_includes m ''WebAssembly'' then
            ''Your browser does not support WebAssembly, which is required for video processing. Please use a modern browser.''
          else m
      | OtherValue \<Rightarrow> ''An unknown error occurred. Please refresh the page and try again.'')"

definition new_FFmpeg :: FFmpeg where
  \<comment> \<open>A fresh instance with the console listener that \<open>initialize\<close> registers.\<close>
  "new_FFmpeg = \<lparr>files = Map.empty, logListeners = 1, execInFlight = False\<rparr>"

definition initialize :: "FFmpegService \<Rightarrow> load_outcome \<Rightarrow> FFmpegService \<times> unit promise" where
  \<comment> \<open>\<open>LoadNever\<close>: the load does not settle and the 10 second timer rejects.\<close>
  "initialize svc lo =
     (if loaded svc then (svc, Resolved ())
      else (case initPromise svc of
              Some p \<Rightarrow> (svc, p)
            | None \<Rightarrow>
                (case lo of
                   LoadOk \<Rightarrow>
                     (svc\<lparr>ffmpeg := Some new_FFmpeg, loaded := True, initPromise := Some (Resolved ())\<rparr>,
                      Resolved ())
                 | LoadThrows e \<Rightarrow>
                     (svc\<lparr>ffmpeg := Some new_FFmpeg, loaded := False, initPromise := None\<rparr>,
                      Rejected (ErrorObj (init_error_message e)))
                 | LoadNever \<Rightarrow>
                     (svc\<lparr>ffmpeg := Some new_FFmpeg, loaded := False, initPromise := None\<rparr>,
                      Rejected (ErrorObj (init_error_message (ErrorObj ''FFmpeg initialization timed out'')))))))"

definition terminate :: "FFmpegService \<Rightarrow> FFmpegService" where
  "terminate svc = (case ffmpeg svc of None \<Rightarrow> svc | Some _ \<Rightarrow> svc\<lparr>ffmpeg := None, loaded := False\<rparr>)"

definition engine_busy :: "FFmpegService \<Rightarrow> bool" where
  \<comment> \<open>The busy state of the specification's engine: the engine is loaded and a conversion
      that was started on it has not ended.\<close>
  "engine_busy svc = (case ffmpeg svc of None \<Rightarrow> False | Some inst \<Rightarrow> loaded svc \<and> execInFlight inst)"

section \<open>The converter page: reducer and conversion workflow\<close>

datatype status = StatusIdle | StatusLoading | StatusProcessing | StatusComplete | StatusError

datatype error_type = Upload | Ffmpeg | Conversion | Download

datatype retry = InitializeFFmpeg | HandleConvert

record ErrorState =
  errorType :: error_type
  message :: string
  recoverable :: bool
  retryAction :: "retry option"

record ConverterState =
  uploadedFile :: "File option"
  videoMetadata :: "VideoMetadata option"
  settings :: ConversionSettings
  conversionStatus :: status
  progress :: real
  gifBlob :: "Blob option"
  errorState :: "ErrorState option"
  ffmpegLoaded :: bool

record settings_patch =
  patch_quality :: "int option"
  patch_frameRate :: "int option"
  patch_width :: "int option"
  patch_height :: "int option"
  patch_startTime :: "real option"
  patch_endTime :: "real option"

datatype ConverterAction =
    SET_FILE File
  | SET_METADATA VideoMetadata
  | UPDATE_SETTINGS settings_patch
  | SET_STATUS status
  | SET_PROGRESS real
  | SET_GIF_BLOB Blob
  | SET_ERROR ErrorState
  | CLEAR_ERROR
  | SET_FFMPEG_LOADED bool
  | RESET

definition initialState :: ConverterState where
  "initialState =
     \<lparr>uploadedFile = None, videoMetadata = None,
      settings = \<lparr>quality = 80, frameRate = 15, width = 800, height = 600, startTime = 0, endTime = 0\<rparr>,
      conversionStatus = StatusIdle, progress = 0, gifBlob = None, errorState = None,
      ffmpegLoaded = False\<rparr>"

definition merge_settings :: "ConversionSettings \<Rightarrow> settings_patch \<Rightarrow> ConversionSettings" where
  "merge_settings s p =
     \<lparr>quality = (case patch_quality p of None \<Rightarrow> quality s | Some v \<Rightarrow> v),
      frameRate = (case patch_frameRate p of None \<Rightarrow> frameRate s | Some v \<Rightarrow> v),
      width = (case patch_width p of None \<Rightarrow> width s | Some v \<Rightarrow> v),
      height = (case patch_height p of None \<Rightarrow> height s | Some v \<Rightarrow> v),
      startTime = (case patch_startTime p of None \<Rightarrow> startTime s | Some v \<Rightarrow> v),
      endTime = (case patch_endTime p of None \<Rightarrow> endTime s | Some v \<Rightarrow> v)\<rparr>"

fun converterReducer :: "ConverterState \<Rightarrow> ConverterAction \<Rightarrow> ConverterState" where
  "converterReducer state (SET_FILE f) =
     state\<lparr>uploadedFile := Some f, videoMetadata := None, gifBlob := None, progress := 0,
           conversionStatus := StatusIdle, errorState := None\<rparr>"
| "converterReducer state (SET_METADATA m) =
     (let defaultWidth = min (vwidth m) 800;
          defaultHeight = Math_round (of_int defaultWidth / aspectRatio m)
      in state\<lparr>videoMetadata := Some m,
               settings := (settings state)\<lparr>width := defaultWidth, height := defaultHeight,
                                            startTime := 0, endTime := duration m\<rparr>\<rparr>)"
| "converterReducer state (UPDATE_SETTINGS p) = state\<lparr>settings := merge_settings (settings state) p\<rparr>"
| "converterReducer state (SET_STATUS st) = state\<lparr>conversionStatus := st\<rparr>"
| "converterReducer state (SET_PROGRESS p) = state\<lparr>progress := p\<rparr>"
| "converterReducer state (SET_GIF_BLOB b) =
     state\<lparr>gifBlob := Some b, conversionStatus := StatusComplete, progress := 100\<rparr>"
| "converterReducer state (SET_ERROR e) = state\<lparr>errorState := Some e, conversionStatus := StatusError\<rparr>"
| "converterReducer state CLEAR_ERROR = state\<lparr>errorState := None\<rparr>"
| "converterReducer state (SET_FFMPEG_LOADED b) = state\<lparr>ffmpegLoaded := b\<rparr>"
| "converterReducer state RESET = initialState\<lparr>ffmpegLoaded := ffmpegLoaded state\<rparr>"

text \<open>
  One run of a handler is the list of its effects in program order: the actions it
  dispatches, the timer it arms and clears, the firing of that timer, and its calls of the
  service.
\<close>

datatype effect =
    Dispatch ConverterAction
  | SetTimeout nat
  | ClearTimeout
  | TimeoutFired
  | CallInitialize
  | CallConvertToGif File ConversionSettings

definition initialize_failed_message :: "thrown \<Rightarrow> string" where
  "initialize_failed_message e =
     (case e of
        ErrorObj m \<Rightarrow>
          if str_includes m ''network'' \<or> str_includes m ''fetch'' then
            ''Failed to load video processing library due to network issues. Please check your internet connection and try again.''
          else if str_includes m ''timeout'' then
            ''Loading video processing library timed out. Please check your internet connection and try again.''
          else m
      | OtherValue \<Rightarrow> ''Failed to initialize FFmpeg. Please refresh the page and try again.'')"

definition initializeFFmpeg ::
  "FFmpegService \<Rightarrow> load_outcome \<Rightarrow> effect list \<times> FFmpegService \<times> unit promise" where
  "initializeFFmpeg svc lo =
     (if isLoaded svc then ([Dispatch (SET_FFMPEG_LOADED True)], svc, Resolved ())
      else (case initialize svc lo of
              (svc', Resolved _) \<Rightarrow>
                ([Dispatch (SET_STATUS StatusLoading), CallInitialize,
                  Dispatch (SET_FFMPEG_LOADED True), Dispatch (SET_STATUS StatusIdle)],
                 svc', Resolved ())
            | (svc', Rejected e) \<Rightarrow>
                ([Dispatch (SET_STATUS StatusLoading), CallInitialize,
                  Dispatch (SET_ERROR \<lparr>errorType = Ffmpeg, message = initialize_failed_message e,
                                        recoverable = True, retryAction = Some InitializeFFmpeg\<rparr>)],
                 svc', Rejected e)
            | (svc', Pending) \<Rightarrow>
                ([Dispatch (SET_STATUS StatusLoading), CallInitialize], svc', Pending)))"

definition CONVERSION_TIMEOUT :: nat where
  "CONVERSION_TIMEOUT = 5 * 60 * 1000"

definition timeout_message :: string where
  "timeout_message =
     ''Conversion timed out after 5 minutes. Please try with a shorter video or reduce the quality settings.''"

definition conversion_error_message :: "thrown \<Rightarrow> string" where
  "conversion_error_message e =
     (case e of
        ErrorObj m \<Rightarrow>
          if str_includes m ''timed out'' then m
          else if str_includes m ''memory'' \<or> str_includes m ''out of memory'' then
            ''Not enough memory to process this video. Try reducing the video dimensions, quality settings, or use a shorter video clip.''
          else if str_includes m ''format'' \<or> str_includes m ''codec'' then
            ''This video format or codec may not be supported. Please try converting the video to MP4 format first, or try a different video file.''
          else if str_includes m ''corrupted'' \<or> str_includes m ''invalid'' then
            ''The video file appears to be corrupted or invalid. Please try a different video file.''
          else if str_includes m ''abort'' then ''Conversion was cancelled. Please try again.''
          else m
      | OtherValue \<Rightarrow> ''An unexpected error occurred during conversion.'')"

definition conversion_error :: "thrown \<Rightarrow> ConverterAction" where
  "conversion_error e =
     SET_ERROR \<lparr>errorType = Conversion, message = conversion_error_message e,
                recoverable = True, retryAction = Some HandleConvert\<rparr>"

text \<open>
  \<open>handleConvert\<close> reads the file, the metadata, the settings and \<open>ffmpegLoaded\<close> from the
  state it was created in. Its timer is armed before the engine is loaded; the listener
  that turns the timer into a rejection is attached only after \<open>convertToGif\<close> has been called.
\<close>

definition handleConvert ::
  "ConverterState \<Rightarrow> FFmpegService \<Rightarrow> load_outcome \<Rightarrow> conv_env \<Rightarrow> effect list \<times> FFmpegService" where
  "handleConvert state svc lo env =
     (case (uploadedFile state, videoMetadata state) of
        (Some file, Some _) \<Rightarrow>
          (let (init_effects, svc1, init_result) =
                 (if \<not> ffmpegLoaded state then initializeFFmpeg svc lo else ([], svc, Resolved ()))
           in (case init_result of
                 Pending \<Rightarrow> (SetTimeout CONVERSION_TIMEOUT # init_effects @ [TimeoutFired], svc1)
               | Rejected e \<Rightarrow>
                   (SetTimeout CONVERSION_TIMEOUT # init_effects
                      @ [ClearTimeout, Dispatch (conversion_error e)], svc1)
               | Resolved _ \<Rightarrow>
                   (let (svc2, reported, result) = convertToGif svc1 file (settings state) env;
                        started = SetTimeout CONVERSION_TIMEOUT # init_effects
                          @ [Dispatch (SET_STATUS StatusProcessing), Dispatch (SET_PROGRESS 0),
                             Dispatch CLEAR_ERROR, CallConvertToGif file (settings state)]
                          @ map (\<lambda>p. Dispatch (SET_PROGRESS p)) reported
                    in (case result of
                          Resolved gif \<Rightarrow> (started @ [ClearTimeout, Dispatch (SET_GIF_BLOB gif)], svc2)
                        | Rejected e \<Rightarrow> (started @ [ClearTimeout, Dispatch (conversion_error e)], svc2)
                        | Pending \<Rightarrow>
                            (started @ [TimeoutFired, ClearTimeout,
                                        Dispatch (conversion_error (ErrorObj timeout_message))], svc2)))))
      | _ \<Rightarrow> ([], svc))"

fun apply_effect :: "ConverterState \<Rightarrow> effect \<Rightarrow> ConverterState" where
  "apply_effect state (Dispatch a) = converterReducer state a"
| "apply_effect state _ = state"

definition after_effects :: "ConverterState \<Rightarrow> effect list \<Rightarrow> ConverterState" where
  "after_effects state effs = foldl apply_effect state effs"

section \<open>Engine logs with steady reports, and sample inputs\<close>

text \<open>
  The durations and positions that a sequence of log events reports, in order. A log is
  steady when every duration it reports is the same and its positions never go back;
  nothing in the service makes the engine's log steady.
\<close>

definition reported_duration :: "log_event \<Rightarrow> nat option" where
  "reported_duration ev = map_option hms_seconds (match_hms ''Duration: '' (snd ev))"

definition reported_time :: "log_event \<Rightarrow> nat option" where
  "reported_time ev = map_option hms_seconds (match_hms ''time='' (snd ev))"

definition reported_durations :: "log_event list \<Rightarrow> nat list" where
  "reported_durations evs = List.map_filter reported_duration evs"

definition reported_times :: "log_event list \<Rightarrow> nat list" where
  "reported_times evs = List.map_filter reported_time evs"

definition steady_log :: "log_event list \<Rightarrow> bool" where
  "steady_log evs =
     (sorted (reported_times evs)
      \<and> (\<forall>d \<in> set (reported_durations evs). \<forall>d' \<in> set (reported_durations evs). d = d'))"

definition sample_service :: FFmpegService where
  \<comment> \<open>The service after a successful \<open>initialize\<close>.\<close>
  "sample_service = \<lparr>ffmpeg = Some new_FFmpeg, loaded = True, initPromise = Some (Resolved ())\<rparr>"

definition sample_file :: File where
  "sample_file = \<lparr>fileName = ''clip.mp4'', fileType = ''video/mp4'', fileData = [0, 0, 0, 24]\<rparr>"

definition sample_metadata :: VideoMetadata where
  "sample_metadata = \<lparr>duration = 10, vwidth = 1920, vheight = 1080, vframeRate = 30, aspectRatio = 16 / 9\<rparr>"

definition sample_settings :: ConversionSettings where
  "sample_settings = \<lparr>quality = 80, frameRate = 15, width = 800, height = 450, startTime = 0, endTime = 10\<rparr>"

definition rising_log :: "log_event list" where
  "rising_log =
     [(1000, ''  Duration: 00:00:10.00, start: 0.000000''),
      (1200, ''frame=   45 fps= 15 time=00:00:03.00 speed=1x''),
      (1400, ''frame=   75 fps= 15 time=00:00:05.00 speed=1x'')]"

definition falling_log :: "log_event list" where
  "falling_log =
     [(1000, ''  Duration: 00:00:10.00, start: 0.000000''),
      (1200, ''frame=   75 fps= 15 time=00:00:05.00 speed=1x''),
      (1400, ''frame=   45 fps= 15 time=00:00:03.00 speed=1x'')]"

definition env_success :: "log_event list \<Rightarrow> conv_env" where
  \<comment> \<open>Every step succeeds and the engine writes a three-byte output.\<close>
  "env_success evs =
     \<lparr>fetchFile_result = Inr (fileData sample_file), writeFile_result = None, exec_log = evs,
      exec_result = ExecReturns 0 (Some [71, 73, 70]), fs_missing = ErrorObj ''FS error''\<rparr>"

definition env_exec_rejects :: conv_env where
  "env_exec_rejects =
     \<lparr>fetchFile_result = Inr (fileData sample_file), writeFile_result = None, exec_log = [],
      exec_result = ExecRejects (ErrorObj ''unsupported codec''), fs_missing = ErrorObj ''FS error''\<rparr>"

definition env_exec_never :: conv_env where
  "env_exec_never =
     \<lparr>fetchFile_result = Inr (fileData sample_file), writeFile_result = None, exec_log = rising_log,
      exec_result = ExecNever, fs_missing = ErrorObj ''FS error''\<rparr>"

definition sample_state :: "status \<Rightarrow> real \<Rightarrow> ConverterState" where
  \<comment> \<open>A page state with a file, its metadata and a loaded engine.\<close>
  "sample_state st p =
     \<lparr>uploadedFile = Some sample_file, videoMetadata = Some sample_metadata,
      settings = sample_settings, conversionStatus = st, progress = p, gifBlob = None,
      errorState = None, ffmpegLoaded = True\<rparr>"

definition engine_comes_up :: "ConverterState \<Rightarrow> FFmpegService \<Rightarrow> load_outcome \<Rightarrow> bool" where
  \<comment> \<open>The engine is loaded when \<open>handleConvert\<close> reaches the conversion: it was loaded
      already, or the page has not loaded it yet and the lazy load succeeds.\<close>
  "engine_comes_up state svc lo =
     (isLoaded svc
      \<or> (\<not> ffmpegLoaded state \<and> \<not> loaded svc \<and> initPromise svc = None \<and> lo = LoadOk))"

section \<open>Properties of double rounding\<close>

lemmas fl_eval = fl_def ulp_def round_half_even_def bit_length.simps

lemma bit_length_bounds:
  assumes "0 < n"
  shows "2 ^ (bit_length n - 1) \<le> n \<and> n < 2 ^ bit_length n"
  using assms
proof (induction n rule: bit_length.induct)
  case (1 n)
  show ?case
  proof (cases "n div 2 = 0")
    case True
    then have "n = 1" using "1.prems" by (simp add: div_eq_0_iff) 
    then show ?thesis by (simp add: bit_length.simps)
  next
    case False
    then have ih: "2 ^ (bit_length (n div 2) - 1) \<le> n div 2 \<and> n div 2 < 2 ^ bit_length (n div 2)"
      using "1.IH" "1.prems" by simp
    have pos: "0 < bit_length (n div 2)"
      using False by (subst bit_length.simps) simp
    have bl: "bit_length n = Suc (bit_length (n div 2))"
      using "1.prems" by (subst bit_length.simps) simp
    have "(2::nat) ^ bit_length (n div 2) = 2 * 2 ^ (bit_length (n div 2) - 1)"
      using pos by (cases "bit_length (n div 2)") simp_all
    then have lo: "2 ^ bit_length (n div 2) \<le> n" using ih by linarith
    have hi: "n < 2 * 2 ^ bit_length (n div 2)" using ih by linarith
    show ?thesis using lo hi by (simp add: bl)
  qed
qed

lemma ulp_bounds:
  assumes "x \<noteq> 0"
  shows "0 < ulp x \<and> 2 ^ 52 * ulp x \<le> \<bar>x\<bar> \<and> \<bar>x\<bar> < 2 ^ 53 * ulp x"
proof (cases "1 \<le> \<bar>x\<bar>")
  case True
  define n where "n = nat \<lfloor>\<bar>x\<bar>\<rfloor>"
  have n_pos: "0 < n" using True by (simp add: n_def)
  have n_le: "real n \<le> \<bar>x\<bar>" and n_gt: "\<bar>x\<bar> < real n + 1"
    using True by (simp_all add: n_def)
  define e where "e = bit_length n - 1"
  have b: "2 ^ e \<le> n \<and> n < 2 ^ bit_length n"
    unfolding e_def using n_pos by (rule bit_length_bounds)
  have ble: "bit_length n = Suc e"
    using b n_pos unfolding e_def by (cases "bit_length n") simp_all
  have "real (2 ^ e) \<le> real n" using b by (simp only: of_nat_le_iff)
  moreover have "real (2 ^ e) = 2 ^ e" by simp
  ultimately have lo: "(2::real) ^ e \<le> \<bar>x\<bar>" using n_le by linarith
  have "Suc n \<le> 2 ^ Suc e" using b unfolding ble by simp
  then have "real (Suc n) \<le> real (2 ^ Suc e)" by (simp only: of_nat_le_iff)
  moreover have "real (2 ^ Suc e) = 2 * 2 ^ e" by simp
  moreover have "real (Suc n) = real n + 1" by simp
  ultimately have hi: "\<bar>x\<bar> < 2 * (2::real) ^ e" using n_gt by linarith
  have u: "ulp x = 2 ^ e / 2 ^ 52"
    using True by (simp add: ulp_def n_def e_def)
  show ?thesis using lo hi by (simp add: u)
next
  case False
  define a where "a = \<bar>x\<bar>"
  have a: "0 < a" "a < 1" using assms False by (simp_all add: a_def)
  define y where "y = 1 / a"
  have y: "1 < y" using a by (simp add: y_def)
  define N where "N = nat (\<lceil>y\<rceil> - 1)"
  have cy: "2 \<le> \<lceil>y\<rceil>" using y by linarith
  have N_pos: "0 < N" using cy by (simp add: N_def)
  have N_lt: "real N < y" and N_ge: "y \<le> real N + 1"
    using cy by (simp_all add: N_def) linarith+
  define k where "k = bit_length N"
  have b: "2 ^ (k - 1) \<le> N \<and> N < 2 ^ k"
    unfolding k_def using N_pos by (rule bit_length_bounds)
  have k_pos: "0 < k" using b N_pos by (cases k) simp_all
  have "Suc N \<le> 2 ^ k" using b by simp
  then have "real (Suc N) \<le> real (2 ^ k)" by (simp only: of_nat_le_iff)
  moreover have "real (2 ^ k) = 2 ^ k" by simp
  moreover have "real (Suc N) = real N + 1" by simp
  ultimately have yk: "y \<le> 2 ^ k" using N_ge by linarith
  have "real (2 ^ (k - 1)) \<le> real N" using b by (simp only: of_nat_le_iff)
  moreover have "real (2 ^ (k - 1)) = 2 ^ (k - 1)" by simp
  ultimately have "(2::real) ^ (k - 1) < y" using N_lt by linarith
  moreover have "(2::real) ^ k = 2 * 2 ^ (k - 1)" using k_pos by (cases k) simp_all
  ultimately have ky: "2 ^ k < 2 * y" by linarith
  have lo: "1 \<le> a * 2 ^ k"
    using yk a by (simp add: y_def field_simps)
  have hi: "a * 2 ^ k < 2"
    using ky a by (simp add: y_def field_simps)
  have u: "ulp x = 1 / (2 ^ 52 * 2 ^ k)"
    using False by (simp add: ulp_def k_def N_def y_def a_def)
  have "0 < ulp x" by (simp add: u)
  moreover have "2 ^ 52 * ulp x \<le> \<bar>x\<bar>"
    using lo by (simp add: u a_def field_simps)
  moreover have "\<bar>x\<bar> < 2 ^ 53 * ulp x"
    using hi by (simp add: u a_def field_simps)
  ultimately show ?thesis by blast
qed

lemma round_half_even_close: "\<bar>of_int (round_half_even y) - y\<bar> \<le> 1 / 2"
proof -
  have "of_int \<lfloor>y\<rfloor> \<le> y" and "y < of_int \<lfloor>y\<rfloor> + 1" by linarith+
  then show ?thesis
    by (auto simp add: round_half_even_def Let_def)
qed

lemma round_half_even_of_int: "round_half_even (of_int m) = m"
  by (simp add: round_half_even_def)

lemma fl_zero: "fl 0 = 0"
  by (simp add: fl_def round_half_even_def)

lemma fl_error:
  assumes "x \<noteq> 0"
  shows "\<bar>fl x - x\<bar> \<le> ulp x / 2"
proof -
  have u: "0 < ulp x" using ulp_bounds [OF assms] by simp
  define q where "q = x / ulp x"
  have x: "x = q * ulp x" using u by (simp add: q_def)
  have "fl x - x = (of_int (round_half_even q) - q) * ulp x"
    using u by (simp add: fl_def q_def algebra_simps)
  then have "\<bar>fl x - x\<bar> = \<bar>of_int (round_half_even q) - q\<bar> * ulp x"
    using u by (simp add: abs_mult)
  also have "\<dots> \<le> 1 / 2 * ulp x"
    using round_half_even_close [of q] u by (simp only: mult_le_cancel_right_pos)
  finally show ?thesis by simp
qed

lemma fl_relative: "\<bar>fl x - x\<bar> \<le> \<bar>x\<bar> / 2 ^ 53"
proof (cases "x = 0")
  case True
  then show ?thesis by (simp add: fl_zero)
next
  case False
  have "ulp x / 2 \<le> \<bar>x\<bar> / 2 ^ 53"
    using ulp_bounds [OF False] by simp
  then show ?thesis using fl_error [OF False] by linarith
qed

lemma fl_nonneg:
  assumes "0 \<le> x"
  shows "0 \<le> fl x"
proof -
  have "\<bar>x\<bar> / 2 ^ 53 \<le> x" using assms by simp
  then show ?thesis using fl_relative [of x] by linarith
qed

lemma ulp_power_of_two:
  assumes "x \<noteq> 0" and "\<bar>x\<bar> < 2 ^ 53"
  shows "\<exists>j::nat. ulp x * 2 ^ j = 1"
proof (cases "1 \<le> \<bar>x\<bar>")
  case True
  define e where "e = bit_length (nat \<lfloor>\<bar>x\<bar>\<rfloor>) - 1"
  have u: "ulp x = 2 ^ e / 2 ^ 52" using True by (simp add: ulp_def e_def)
  have "(2::real) ^ 52 * ulp x < 2 ^ 53"
    using ulp_bounds [OF assms(1)] assms(2) by linarith
  then have "(2::real) ^ e < 2 ^ 53" by (simp add: u)
  then have "e < 53" by (simp only: power_strict_increasing_iff one_less_numeral_iff semiring_norm)
  then have "(2::real) ^ 52 = 2 ^ e * 2 ^ (52 - e)"
    by (simp add: power_add [symmetric])
  then have "ulp x * 2 ^ (52 - e) = 1" by (simp add: u)
  then show ?thesis by blast
next
  case False
  define k where "k = bit_length (nat (\<lceil>1 / \<bar>x\<bar>\<rceil> - 1))"
  have "ulp x = 1 / (2 ^ 52 * 2 ^ k)" using False by (simp add: ulp_def k_def)
  then have "ulp x * 2 ^ (52 + k) = 1" by (simp add: power_add)
  then show ?thesis by blast
qed

lemma fl_multiple: "\<exists>r::int. fl x = of_int r * ulp x"
  unfolding fl_def by blast

lemma int_multiple_of_ulp:
  assumes "x \<noteq> 0" and "\<bar>x\<bar> < 2 ^ 53"
  shows "\<exists>r::int. of_int m = of_int r * ulp x"
proof -
  obtain j :: nat where j: "ulp x * 2 ^ j = 1" using ulp_power_of_two [OF assms] by blast
  have "real_of_int m = of_int (m * 2 ^ j) * ulp x"
    using j by (simp add: algebra_simps)
  then show ?thesis by blast
qed

lemma fl_of_int:
  assumes "\<bar>m\<bar> < 2 ^ 53"
  shows "fl (of_int m) = of_int m"
proof (cases "m = 0")
  case True
  then show ?thesis by (simp add: fl_zero)
next
  case False
  let ?x = "real_of_int m"
  have nz: "?x \<noteq> 0" using False by simp
  have "real_of_int \<bar>m\<bar> < real_of_int (2 ^ 53)" using assms by (simp only: of_int_less_iff)
  then have small: "\<bar>?x\<bar> < 2 ^ 53" by simp
  obtain r :: int where r: "?x = of_int r * ulp ?x"
    using int_multiple_of_ulp [OF nz small, of m] by blast
  have u: "0 < ulp ?x" using ulp_bounds [OF nz] by simp
  have "?x / ulp ?x = of_int r" using r u by (simp add: field_simps)
  then have "fl ?x = of_int r * ulp ?x"
    by (simp only: fl_def round_half_even_of_int)
  then show ?thesis using r by simp
qed

lemma floor_fl_div60:
  assumes d: "is_double x" and nonneg: "0 \<le> x" and small: "x < 2 ^ 53"
  shows "\<lfloor>fl (x / 60)\<rfloor> = \<lfloor>x / 60\<rfloor>"
proof (cases "x = 0")
  case True
  then show ?thesis by (simp add: fl_zero)
next
  case False
  define q where "q = x / 60"
  define m where "m = \<lfloor>q\<rfloor>"
  have q: "0 < q" "q \<noteq> 0" "\<bar>q\<bar> < 2 ^ 53" "\<bar>q\<bar> = q"
    using False nonneg small by (simp_all add: q_def)
  have xa: "\<bar>x\<bar> = x" "\<bar>x\<bar> < 2 ^ 53" using nonneg small by simp_all
  have mq: "of_int m \<le> q" "q < of_int m + 1" unfolding m_def by linarith+
  have uq: "0 < ulp q" using ulp_bounds [OF q(2)] by simp
  have ux: "0 < ulp x" "x < 2 ^ 53 * ulp x" using ulp_bounds [OF False] xa by simp_all
  have lower: "of_int m \<le> fl q"
  proof (rule ccontr)
    assume "\<not> of_int m \<le> fl q"
    then have below: "fl q < of_int m" by simp
    obtain r :: int where r: "fl q = of_int r * ulp q" using fl_multiple by blast
    obtain s :: int where s: "real_of_int m = of_int s * ulp q"
      using int_multiple_of_ulp [OF q(2) q(3), of m] by blast
    have "real_of_int r * ulp q < of_int s * ulp q" using below r s by simp
    then have "real_of_int r < of_int s" using uq by (simp only: mult_less_cancel_right_pos)
    then have "r + 1 \<le> s" by simp
    then have "real_of_int (r + 1) \<le> of_int s" by (simp only: of_int_le_iff)
    then have "real_of_int (r + 1) * ulp q \<le> of_int s * ulp q"
      using uq by (simp only: mult_le_cancel_right_pos)
    then have "fl q + ulp q \<le> of_int m" using r s by (simp add: algebra_simps)
    then show False using fl_error [OF q(2)] mq(1) uq by linarith
  qed
  have upper: "fl q < of_int m + 1"
  proof (rule ccontr)
    assume "\<not> fl q < of_int m + 1"
    then have above: "of_int (m + 1) \<le> fl q" by simp
    have "fl q - q \<le> q / 2 ^ 53" using fl_relative [of q] q(4) by linarith
    then have gap: "60 * of_int (m + 1) - x \<le> x / 2 ^ 53"
      using above by (simp add: q_def)
    have xlt: "x < 60 * of_int (m + 1)" using mq(2) by (simp add: q_def)
    have "\<exists>r::int. x = of_int r * ulp x"
      using fl_multiple [of x] d by (simp add: is_double_def)
    then obtain r :: int where r: "x = of_int r * ulp x" by blast
    obtain s :: int where s: "real_of_int (60 * (m + 1)) = of_int s * ulp x"
      using int_multiple_of_ulp [OF False xa(2), of "60 * (m + 1)"] by blast
    have "real_of_int r * ulp x < of_int s * ulp x" using xlt r s by simp
    then have "real_of_int r < of_int s" using ux(1) by (simp only: mult_less_cancel_right_pos)
    then have "r + 1 \<le> s" by simp
    then have "real_of_int (r + 1) \<le> of_int s" by (simp only: of_int_le_iff)
    then have "real_of_int (r + 1) * ulp x \<le> of_int s * ulp x"
      using ux(1) by (simp only: mult_le_cancel_right_pos)
    then have "x + ulp x \<le> 60 * of_int (m + 1)" using r s by (simp add: algebra_simps)
    moreover have "x / 2 ^ 53 < ulp x" using ux(2) by simp
    ultimately show False using gap by linarith
  qed
  have "\<lfloor>fl q\<rfloor> = m" using lower upper by linarith
  then show ?thesis by (simp add: q_def m_def)
qed

section \<open>Properties of digit strings\<close>

lemma digit_char_props:
  assumes "d < 10"
  shows "is_digit (digit_char d) \<and> digit_val (digit_char d) = d"
proof -
  have "d \<in> {0, 1, 2, 3, 4, 5, 6, 7, 8, 9}" using assms by auto
  then show ?thesis
    by (auto simp add: digit_char_def is_digit_def digit_val_def)
qed

lemma digits_val_snoc: "digits_val (xs @ [c]) = 10 * digits_val xs + digit_val c"
  by (simp add: digits_val_def)

lemma nat_digits_props:
  "nat_digits n \<noteq> [] \<and> (\<forall>c \<in> set (nat_digits n). is_digit c) \<and> digits_val (nat_digits n) = n"
proof (induction n rule: nat_digits.induct)
  case (1 n)
  show ?case
  proof (cases "n < 10")
    case True
    then have eq: "nat_digits n = [digit_char n]" by (simp add: nat_digits.simps)
    have "digits_val [digit_char n] = digit_val (digit_char n)" by (simp add: digits_val_def)
    then show ?thesis using digit_char_props [OF True] by (simp add: eq)
  next
    case False
    then have eq: "nat_digits n = nat_digits (n div 10) @ [digit_char (n mod 10)]"
      by (simp add: nat_digits.simps)
    have last_digit: "is_digit (digit_char (n mod 10)) \<and> digit_val (digit_char (n mod 10)) = n mod 10"
      by (rule digit_char_props) simp
    have ih: "nat_digits (n div 10) \<noteq> [] \<and> (\<forall>c \<in> set (nat_digits (n div 10)). is_digit c)
              \<and> digits_val (nat_digits (n div 10)) = n div 10"
      using "1.IH" False by simp
    have "digits_val (nat_digits n) = 10 * (n div 10) + n mod 10"
      using ih last_digit by (simp add: eq digits_val_snoc)
    then show ?thesis using ih last_digit by (simp add: eq)
  qed
qed

lemma is_digit_plain:
  assumes "is_digit c"
  shows "\<not> is_space c \<and> c \<noteq> CHR ''-'' \<and> c \<noteq> CHR ''+'' \<and> c \<noteq> CHR '':'' \<and> c \<noteq> CHR ''.''"
  using assms by (auto simp add: is_digit_def is_space_def)

lemma parseInt10_digits:
  assumes "ds \<noteq> []" and "\<forall>c \<in> set ds. is_digit c"
  shows "parseInt10 ds = Some (int (digits_val ds))"
proof -
  obtain c cs where ds: "ds = c # cs" using assms(1) by (cases ds) auto
  have c: "\<not> is_space c \<and> c \<noteq> CHR ''-'' \<and> c \<noteq> CHR ''+''"
    using assms(2) is_digit_plain by (simp add: ds)
  have dw: "dropWhile is_space ds = ds" using c by (simp add: ds)
  have tw: "takeWhile is_digit ds = ds" using assms(2) by (simp add: takeWhile_eq_all_conv)
  have hd: "hd ds = c" by (simp add: ds)
  show ?thesis
    using assms(1) c by (simp add: parseInt10_def dw tw hd)
qed

lemma digits_val_zero_cons: "digits_val (CHR ''0'' # ds) = digits_val ds"
  by (simp add: digits_val_def digit_val_def)

lemma padStart2_digits:
  assumes "ds \<noteq> []" and "\<forall>c \<in> set ds. is_digit c"
  shows "padStart 2 (CHR ''0'') ds \<noteq> []
         \<and> (\<forall>c \<in> set (padStart 2 (CHR ''0'') ds). is_digit c)
         \<and> digits_val (padStart 2 (CHR ''0'') ds) = digits_val ds"
proof (cases "length ds = 1")
  case True
  then have "padStart 2 (CHR ''0'') ds = CHR ''0'' # ds" by (simp add: padStart_def)
  moreover have "is_digit CHR ''0''" by (simp add: is_digit_def)
  ultimately show ?thesis using assms by (simp add: digits_val_zero_cons)
next
  case False
  moreover have "length ds \<noteq> 0" using assms(1) by simp
  ultimately have "2 \<le> length ds" by linarith
  then have "padStart 2 (CHR ''0'') ds = ds" by (simp add: padStart_def)
  then show ?thesis using assms by simp
qed

lemma split_on_single: "c \<notin> set a \<Longrightarrow> split_on c a = [a]"
  by (induction a) auto

lemma split_on_first: "c \<notin> set a \<Longrightarrow> split_on c (a @ c # b) = a # split_on c b"
  by (induction a) auto

lemma digits_free_of:
  assumes "\<forall>c \<in> set ds. is_digit c"
  shows "CHR '':'' \<notin> set ds \<and> CHR ''.'' \<notin> set ds"
  using assms is_digit_plain by blast

section \<open>Properties of the video utilities\<close>








text \<open>
  C6, as the specification states it, fails: the validator reads neither \<open>startTime\<close> nor
  \<open>endTime\<close> (and is not given the source duration), so an empty trim window passes.
\<close>

theorem C6_trim_range_counterexample:
  "endTime \<lparr>quality = 80, frameRate = 15, width = 800, height = 450, startTime = 5, endTime = 2\<rparr>
     \<le> startTime \<lparr>quality = 80, frameRate = 15, width = 800, height = 450, startTime = 5, endTime = 2\<rparr>
   \<and> validateSettings \<lparr>quality = 80, frameRate = 15, width = 800, height = 450, startTime = 5, endTime = 2\<rparr>
     = \<lparr>isValid = True, error = None\<rparr>"
  by (simp add: validateSettings_def)

text \<open>
  C6 (amended): the settings validator checks quality, frame rate, width and height only.
  Its result does not depend on the trim window, and settings whose four checked fields
  are in range are valid whatever \<open>startTime\<close> and \<open>endTime\<close> are.
\<close>

theorem C6_validator_ignores_trim:
  "validateSettings (s\<lparr>startTime := a, endTime := b\<rparr>) = validateSettings s
   \<and> (isValid (validateSettings s) \<longleftrightarrow>
        1 \<le> quality s \<and> quality s \<le> 100 \<and> frameRate s \<in> {10, 15, 20, 24, 30}
        \<and> 100 \<le> width s \<and> width s \<le> 1920 \<and> 100 \<le> height s \<and> height s \<le> 1920)"
  by (auto simp add: validateSettings_def)

section \<open>Properties of the command builder\<close>

lemmas js_eval =
  Number_toString_def nat_digits.simps digit_char_def padStart_def toFixed3_def
  maxColors_def filterComplex_def buildFFmpegCommand_def

lemma starts_with_append: "starts_with p (p @ b)"
  by (induction p) simp_all

lemma str_includes_append: "str_includes (a @ p @ b) p"
proof (induction a)
  case Nil
  show ?case
  proof (cases "p @ b")
    case Nil
    then show ?thesis by simp
  next
    case (Cons c cs)
    have "starts_with p (p @ b)" by (rule starts_with_append)
    then show ?thesis using Cons by simp
  qed
next
  case (Cons c a)
  then show ?case by simp
qed

lemma maxColors_div: "maxColors q = 16 + (12 * q) div 5"
proof -
  have "16 + real_of_int q / 100 * 240 = real_of_int (80 + 12 * q) / real_of_int 5"
    by simp
  then have "maxColors q = (80 + 12 * q) div 5"
    unfolding maxColors_def by (simp only: floor_divide_of_int_eq)
  then show ?thesis by simp
qed

lemma filterComplex_string:
  "filterComplex s =
     (''fps='' @ Number_toString (frameRate s) @ '',scale='' @ Number_toString (width s) @ '':''
        @ Number_toString (height s) @ '':flags=lanczos,split[s0][s1],'')
     @ (''[s0]palettegen=max_colors='' @ Number_toString (maxColors (quality s)) @ ''[p]'')
     @ '',[s1][p]paletteuse=dither=bayer:bayer_scale=5''"
  by (simp add: filterComplex_def)

text \<open>
  C1, as the specification states it, fails at the lower end: quality 1 gives
  \<open>floor (16 + 2.4) = 18\<close> colours, not 16.
\<close>

theorem C1_min_quality_counterexample:
  "maxColors 1 \<noteq> 16
   \<and> buildFFmpegCommand ''input.mp4'' ''output.gif''
        \<lparr>quality = 1, frameRate = 15, width = 800, height = 450, startTime = 0, endTime = 10\<rparr> ! 7
       = ''fps=15,scale=800:450:flags=lanczos,split[s0][s1],[s0]palettegen=max_colors=18[p],[s1][p]paletteuse=dither=bayer:bayer_scale=5''"
  by (simp add: js_eval fl_eval)

text \<open>
  C1 (amended): for every integer quality in [1, 100] the filter argument of the command
  built by \<open>buildFFmpegCommand\<close> contains a palettegen filter with
  \<open>max_colors = floor (16 + (quality / 100) * 240)\<close>, a value between 18 and 256; quality 80
  yields 208, quality 1 yields 18 and quality 100 yields 256.
\<close>

theorem C1_palette_colours:
  assumes "1 \<le> quality s" and "quality s \<le> 100"
  shows "str_includes (buildFFmpegCommand inp out s ! 7)
           (''[s0]palettegen=max_colors=''
              @ Number_toString \<lfloor>16 + (real_of_int (quality s) / 100) * 240\<rfloor> @ ''[p]'')
         \<and> 18 \<le> maxColors (quality s) \<and> maxColors (quality s) \<le> 256
         \<and> maxColors 80 = 208 \<and> maxColors 1 = 18 \<and> maxColors 100 = 256"
proof -
  have cmd: "buildFFmpegCommand inp out s ! 7 = filterComplex s"
    by (simp add: buildFFmpegCommand_def Let_def)
  have "str_includes (filterComplex s)
          (''[s0]palettegen=max_colors='' @ Number_toString (maxColors (quality s)) @ ''[p]'')"
    by (simp only: filterComplex_string str_includes_append)
  then have inc: "str_includes (buildFFmpegCommand inp out s ! 7)
           (''[s0]palettegen=max_colors=''
              @ Number_toString \<lfloor>16 + (real_of_int (quality s) / 100) * 240\<rfloor> @ ''[p]'')"
    by (simp only: cmd maxColors_def)
  have rng: "18 \<le> maxColors (quality s) \<and> maxColors (quality s) \<le> 256"
    using assms by (simp add: maxColors_div) linarith
  have vals: "maxColors 80 = 208 \<and> maxColors 1 = 18 \<and> maxColors 100 = 256"
    by (simp add: maxColors_div)
  show ?thesis using inc rng vals by (elim conjE) (intro conjI; assumption)
qed

theorem C1_palette_colours_witness:
  "1 \<le> quality \<lparr>quality = 80, frameRate = 15, width = 800, height = 450, startTime = 0, endTime = 10\<rparr>
   \<and> quality \<lparr>quality = 80, frameRate = 15, width = 800, height = 450, startTime = 0, endTime = 10\<rparr> \<le> 100
   \<and> str_includes
         (buildFFmpegCommand ''input.mp4'' ''output.gif''
            \<lparr>quality = 80, frameRate = 15, width = 800, height = 450, startTime = 0, endTime = 10\<rparr> ! 7)
         ''[s0]palettegen=max_colors=208[p]''"
  using C1_palette_colours [of
      "\<lparr>quality = 80, frameRate = 15, width = 800, height = 450, startTime = 0, endTime = 10\<rparr>"
      "''input.mp4''" "''output.gif''"]
  by (simp add: Number_toString_def nat_digits.simps digit_char_def)

lemma three_digits:
  fixes n :: nat
  defines "ds \<equiv> [digit_char (n div 100 mod 10), digit_char (n div 10 mod 10), digit_char (n mod 10)]"
  shows "length ds = 3" and "list_all is_digit ds" and "digits_val ds = n mod 1000"
    and "CHR ''.'' \<notin> set ds"
proof -
  have d2: "is_digit (digit_char (n div 100 mod 10))"
      "digit_val (digit_char (n div 100 mod 10)) = n div 100 mod 10"
    using digit_char_props [of "n div 100 mod 10"] by simp_all
  have d1: "is_digit (digit_char (n div 10 mod 10))"
      "digit_val (digit_char (n div 10 mod 10)) = n div 10 mod 10"
    using digit_char_props [of "n div 10 mod 10"] by simp_all
  have d0: "is_digit (digit_char (n mod 10))" "digit_val (digit_char (n mod 10)) = n mod 10"
    using digit_char_props [of "n mod 10"] by simp_all
  show "length ds = 3" by (simp add: ds_def)
  show "list_all is_digit ds" using d2(1) d1(1) d0(1) by (simp add: ds_def)
  have "digits_val ds = 100 * (n div 100 mod 10) + 10 * (n div 10 mod 10) + n mod 10"
    using d2(2) d1(2) d0(2) by (simp add: ds_def digits_val_def)
  also have "\<dots> = n mod 1000"
    using mod_mult2_eq [of n 100 10] mod_mult2_eq [of n 10 10] by simp
  finally show "digits_val ds = n mod 1000" .
  show "CHR ''.'' \<notin> set ds"
    using is_digit_plain [OF d2(1)] is_digit_plain [OF d1(1)] is_digit_plain [OF d0(1)]
    by (auto simp add: ds_def)
qed

lemma read_fixed3_toFixed3:
  "read_fixed3 (toFixed3 x)
     = Some ((if x < 0 then - 1 else 1) * (real (nat \<lfloor>\<bar>x\<bar> * 1000 + 1 / 2\<rfloor>) / 1000))"
proof -
  define n where "n = nat \<lfloor>\<bar>x\<bar> * 1000 + 1 / 2\<rfloor>"
  define W where "W = nat_digits (n div 1000)"
  define F where "F = [digit_char (n div 100 mod 10), digit_char (n div 10 mod 10), digit_char (n mod 10)]"
  have W: "W \<noteq> []" "\<forall>c \<in> set W. is_digit c" "digits_val W = n div 1000"
    using nat_digits_props [of "n div 1000"] by (simp_all add: W_def)
  have F: "length F = 3" "list_all is_digit F" "digits_val F = n mod 1000" "CHR ''.'' \<notin> set F"
    unfolding F_def by (rule three_digits)+
  have Wd: "CHR ''.'' \<notin> set W" "hd W \<noteq> CHR ''-''" "list_all is_digit W"
    using W(1,2) is_digit_plain by (cases W, auto simp add: list_all_iff)+
  have body: "split_on CHR ''.'' (W @ CHR ''.'' # F) = [W, F]"
    using split_on_first [OF Wd(1), of F] split_on_single [OF F(4)] by simp
  have val: "real (digits_val W) + real (digits_val F) / 1000 = real n / 1000"
  proof -
    have "n = 1000 * (n div 1000) + n mod 1000" by simp
    then have "real n = 1000 * real (n div 1000) + real (n mod 1000)"
      by (metis of_nat_add of_nat_mult of_nat_numeral)
    then show ?thesis by (simp add: W(3) F(3))
  qed
  have str: "toFixed3 x = (if x < 0 then ''-'' else '''') @ W @ CHR ''.'' # F"
    by (simp add: toFixed3_def Let_def n_def W_def F_def)
  show ?thesis
  proof (cases "x < 0")
    case True
    then have "toFixed3 x = CHR ''-'' # W @ CHR ''.'' # F" by (simp add: str)
    then have "read_fixed3 (toFixed3 x) = Some (- 1 * (real (digits_val W) + real (digits_val F) / 1000))"
      using W(1) Wd(3) F(1,2) by (simp add: read_fixed3_def body)
    then show ?thesis using True by (simp only: val n_def if_True)
  next
    case False
    then have s: "toFixed3 x = W @ CHR ''.'' # F" by (simp add: str)
    have "hd (W @ CHR ''.'' # F) \<noteq> CHR ''-''" using W(1) Wd(2) by simp
    then have "read_fixed3 (toFixed3 x) = Some (1 * (real (digits_val W) + real (digits_val F) / 1000))"
      using W(1) Wd(3) F(1,2) by (simp add: read_fixed3_def s body)
    then show ?thesis using False by (simp only: val n_def if_False)
  qed
qed

lemma toFixed3_millisecond:
  "\<exists>v. read_fixed3 (toFixed3 x) = Some v \<and> \<bar>v - x\<bar> \<le> 1 / 2000"
proof -
  define a where "a = \<bar>x\<bar> * 1000 + 1 / 2"
  define m where "m = real (nat \<lfloor>a\<rfloor>)"
  have a: "0 \<le> \<lfloor>a\<rfloor>" by (simp add: a_def)
  then have m: "m = of_int \<lfloor>a\<rfloor>" by (simp add: m_def)
  have "of_int \<lfloor>a\<rfloor> \<le> a" and "a < of_int \<lfloor>a\<rfloor> + 1" by linarith+
  then have lo: "m \<le> \<bar>x\<bar> * 1000 + 1 / 2" and hi: "\<bar>x\<bar> * 1000 + 1 / 2 < m + 1"
    by (simp_all add: m a_def)
  have n1: "m / 1000 - \<bar>x\<bar> \<le> 1 / 2000" using lo by linarith
  have n2: "\<bar>x\<bar> - m / 1000 \<le> 1 / 2000" using hi by linarith
  have "\<bar>(if x < 0 then - 1 else 1) * (m / 1000) - x\<bar> \<le> 1 / 2000"
  proof (cases "x < 0")
    case True
    then have "\<bar>x\<bar> = - x" by simp
    then have "- (m / 1000) - x \<le> 1 / 2000" and "- (1 / 2000) \<le> - (m / 1000) - x"
      using n1 n2 by linarith+
    then show ?thesis using True by (simp only: abs_le_iff if_True) linarith
  next
    case False
    then have "\<bar>x\<bar> = x" by simp
    then have "m / 1000 - x \<le> 1 / 2000" and "- (1 / 2000) \<le> m / 1000 - x"
      using n1 n2 by linarith+
    then show ?thesis using False by (simp only: abs_le_iff if_False) linarith
  qed
  then show ?thesis
    using read_fixed3_toFixed3 [of x] unfolding m_def a_def by blast
qed

text \<open>
  C8: for times below \<open>10^21\<close> seconds, where \<open>toFixed\<close> prints in fixed notation,
  \<open>buildFFmpegCommand\<close> returns exactly eleven arguments in this order: \<open>-ss\<close> and the
  start time, before \<open>-i\<close> and the input name; \<open>-t\<close> and the trim duration, which is the
  double nearest to \<open>endTime - startTime\<close>; \<open>-vf\<close> and the filter chain (frame rate,
  Lanczos scaling to width by height, split, palettegen, paletteuse with Bayer dithering
  at scale 5); \<open>-loop 0\<close>; the output name. Both times are written with three decimals:
  read back as decimal numbers they are within half a millisecond of the start time and
  of the trim duration.
\<close>

theorem C8_command_sequence:
  assumes "\<bar>startTime s\<bar> < 10 ^ 21" and "\<bar>fl (endTime s - startTime s)\<bar> < 10 ^ 21"
  shows "buildFFmpegCommand inp out s =
     [''-ss'', toFixed3 (startTime s),
      ''-i'', inp,
      ''-t'', toFixed3 (fl (endTime s - startTime s)),
      ''-vf'',
      ''fps='' @ Number_toString (frameRate s)
        @ '',scale='' @ Number_toString (width s) @ '':'' @ Number_toString (height s)
        @ '':flags=lanczos,split[s0][s1],[s0]palettegen=max_colors=''
        @ Number_toString (maxColors (quality s))
        @ ''[p],[s1][p]paletteuse=dither=bayer:bayer_scale=5'',
      ''-loop'', ''0'',
      out]
   \<and> (\<exists>v. read_fixed3 (toFixed3 (startTime s)) = Some v \<and> \<bar>v - startTime s\<bar> \<le> 1 / 2000)
   \<and> (\<exists>v. read_fixed3 (toFixed3 (fl (endTime s - startTime s))) = Some v
            \<and> \<bar>v - fl (endTime s - startTime s)\<bar> \<le> 1 / 2000)
   \<and> \<bar>fl (endTime s - startTime s) - (endTime s - startTime s)\<bar>
         \<le> \<bar>endTime s - startTime s\<bar> / 2 ^ 53"
proof -
  have "buildFFmpegCommand inp out s =
     [''-ss'', toFixed3 (startTime s),
      ''-i'', inp,
      ''-t'', toFixed3 (fl (endTime s - startTime s)),
      ''-vf'',
      ''fps='' @ Number_toString (frameRate s)
        @ '',scale='' @ Number_toString (width s) @ '':'' @ Number_toString (height s)
        @ '':flags=lanczos,split[s0][s1],[s0]palettegen=max_colors=''
        @ Number_toString (maxColors (quality s))
        @ ''[p],[s1][p]paletteuse=dither=bayer:bayer_scale=5'',
      ''-loop'', ''0'',
      out]"
    by (simp add: buildFFmpegCommand_def filterComplex_def Let_def)
  then show ?thesis
    using toFixed3_millisecond [of "startTime s"]
      toFixed3_millisecond [of "fl (endTime s - startTime s)"]
      fl_relative [of "endTime s - startTime s"]
    by blast
qed

theorem C8_command_sequence_witness:
  "\<bar>fl (1 / 1000)\<bar> < 10 ^ 21 \<and> \<bar>fl (fl (1 / 80) - fl (1 / 1000))\<bar> < 10 ^ 21
   \<and> buildFFmpegCommand ''input.mp4'' ''output.gif''
     \<lparr>quality = 80, frameRate = 15, width = 800, height = 450,
      startTime = fl (1 / 1000), endTime = fl (1 / 80)\<rparr>
     = [''-ss'', ''0.001'', ''-i'', ''input.mp4'', ''-t'', ''0.011'', ''-vf'',
        ''fps=15,scale=800:450:flags=lanczos,split[s0][s1],[s0]palettegen=max_colors=208[p],[s1][p]paletteuse=dither=bayer:bayer_scale=5'',
        ''-loop'', ''0'', ''output.gif'']
   \<and> read_fixed3 ''0.001'' = Some (1 / 1000)
   \<and> read_fixed3 ''0.011'' = Some (11 / 1000)
   \<and> \<bar>11 / 1000 - fl (fl (1 / 80) - fl (1 / 1000))\<bar> \<le> 1 / 2000"
proof -
  define s :: ConversionSettings where
    "s = \<lparr>quality = 80, frameRate = 15, width = 800, height = 450,
          startTime = fl (1 / 1000), endTime = fl (1 / 80)\<rparr>"
  have a: "fl (1 / 1000) = 1152921504606847 / 2 ^ 60"
    and b: "fl (1 / 80) = 3602879701896397 / 2 ^ 58"
    by (simp_all add: fl_eval)
  have d: "fl (fl (1 / 80) - fl (1 / 1000)) = 3314649325744685 / 2 ^ 58"
    unfolding a b by (simp add: fl_eval)
  have h1: "\<bar>startTime s\<bar> < 10 ^ 21" by (simp add: s_def a)
  have h2: "\<bar>fl (endTime s - startTime s)\<bar> < 10 ^ 21" by (simp add: s_def d)
  have t1: "toFixed3 (fl (1 / 1000)) = ''0.001''"
    unfolding a by (simp add: toFixed3_def nat_digits.simps digit_char_def)
  have t2: "toFixed3 (fl (fl (1 / 80) - fl (1 / 1000))) = ''0.011''"
    unfolding d by (simp add: toFixed3_def nat_digits.simps digit_char_def)
  have r1: "read_fixed3 ''0.001'' = Some (1 / 1000)"
    by (simp add: read_fixed3_def is_digit_def digits_val_def digit_val_def)
  have r2: "read_fixed3 ''0.011'' = Some (11 / 1000)"
    by (simp add: read_fixed3_def is_digit_def digits_val_def digit_val_def)
  note built = C8_command_sequence [OF h1 h2, of "''input.mp4''" "''output.gif''"]
  have cmd: "buildFFmpegCommand ''input.mp4'' ''output.gif'' s
     = [''-ss'', ''0.001'', ''-i'', ''input.mp4'', ''-t'', ''0.011'', ''-vf'',
        ''fps=15,scale=800:450:flags=lanczos,split[s0][s1],[s0]palettegen=max_colors=208[p],[s1][p]paletteuse=dither=bayer:bayer_scale=5'',
        ''-loop'', ''0'', ''output.gif'']"
    using built [THEN conjunct1]
    by (simp add: s_def t1 t2 Number_toString_def nat_digits.simps digit_char_def maxColors_def)
  obtain v where v: "read_fixed3 (toFixed3 (fl (endTime s - startTime s))) = Some v"
      "\<bar>v - fl (endTime s - startTime s)\<bar> \<le> 1 / 2000"
    using built by blast
  have "v = 11 / 1000" using v(1) by (simp add: s_def t2 r2)
  moreover have "endTime s - startTime s = fl (1 / 80) - fl (1 / 1000)" by (simp add: s_def)
  ultimately have near: "\<bar>11 / 1000 - fl (fl (1 / 80) - fl (1 / 1000))\<bar> \<le> 1 / 2000"
    using v(2) by (simp only:)
  have g1: "\<bar>fl (1 / 1000)\<bar> < 10 ^ 21" by (simp add: a)
  have g2: "\<bar>fl (fl (1 / 80) - fl (1 / 1000))\<bar> < 10 ^ 21" by (simp add: d)
  show ?thesis using g1 g2 cmd [unfolded s_def] near r1 r2 by blast
qed

section \<open>Properties of the progress reports\<close>

lemmas log_eval =
  run_log.simps on_log_def match_hms.simps hms_at_def hms_seconds_def is_digit_def
  digit_val_def PROGRESS_THROTTLE_def

lemmas service_eval =
  convertToGif_def sample_service_def new_FFmpeg_def env_success_def env_exec_rejects_def
  env_exec_never_def sample_file_def sample_settings_def inputFileName_def
  outputFileName_def deleteFile_def conversion_failed_def

lemma on_log_range:
  assumes "on_log st ev = (st', Some p)"
  shows "0 \<le> p \<and> p \<le> 100"
  using assms
  by (auto simp add: on_log_def Let_def split: prod.splits option.splits if_splits)

lemma run_log_range: "\<forall>p \<in> set (run_log st evs). 0 \<le> p \<and> p \<le> 100"
proof (induction evs arbitrary: st)
  case Nil
  show ?case by simp
next
  case (Cons ev evs)
  obtain st' r where step: "on_log st ev = (st', r)" by (cases "on_log st ev")
  show ?case
  proof (cases r)
    case None
    then show ?thesis using step Cons.IH [of st'] by simp
  next
    case (Some p)
    then have "0 \<le> p \<and> p \<le> 100" using step on_log_range by blast
    then show ?thesis using step Some Cons.IH [of st'] by simp
  qed
qed

lemma on_log_steady:
  assumes "on_log st ev = (st', r)"
    and "videoDuration st = 0 \<or> videoDuration st = D"
    and "\<forall>d. reported_duration ev = Some d \<longrightarrow> d = D"
  shows "(videoDuration st' = 0 \<or> videoDuration st' = D)
         \<and> (\<forall>p. r = Some p \<longrightarrow>
               0 < D \<and> (\<exists>t. reported_time ev = Some t \<and> p = min (real t / real D * 100) 100))"
  using assms
  by (cases ev)
     (auto simp add: on_log_def Let_def reported_duration_def reported_time_def
           split: option.splits if_splits)

lemma progress_mono:
  assumes "0 < D" and "t \<le> t'"
  shows "min (real t / real D * 100) 100 \<le> min (real t' / real D * 100) (100::real)"
proof -
  have "real t / real D \<le> real t' / real D"
    using assms by (simp add: divide_right_mono)
  then have "real t / real D * 100 \<le> real t' / real D * 100"
    by (rule mult_right_mono) simp
  then show ?thesis by (rule min.mono) simp
qed

lemma run_log_steady:
  assumes "videoDuration st = 0 \<or> videoDuration st = D"
    and "\<forall>d \<in> set (reported_durations evs). d = D"
    and "sorted (reported_times evs)"
  shows "sorted (run_log st evs)
         \<and> (\<forall>p \<in> set (run_log st evs).
               0 < D \<and> (\<exists>t \<in> set (reported_times evs). p = min (real t / real D * 100) 100))"
  using assms
proof (induction evs arbitrary: st)
  case Nil
  show ?case by simp
next
  case (Cons ev evs)
  obtain st' r where step: "on_log st ev = (st', r)" by (cases "on_log st ev")
  have durs: "\<forall>d. reported_duration ev = Some d \<longrightarrow> d = D"
    using Cons.prems(2) by (auto simp add: reported_durations_def)
  have rest_durs: "\<forall>d \<in> set (reported_durations evs). d = D"
    using Cons.prems(2)
    by (auto simp add: reported_durations_def split: option.splits)
  have rest_sorted: "sorted (reported_times evs)"
    using Cons.prems(3)
    by (auto simp add: reported_times_def split: option.splits)
  have inv: "(videoDuration st' = 0 \<or> videoDuration st' = D)
         \<and> (\<forall>p. r = Some p \<longrightarrow>
               0 < D \<and> (\<exists>t. reported_time ev = Some t \<and> p = min (real t / real D * 100) 100))"
    using on_log_steady [OF step Cons.prems(1) durs] .
  have ih: "sorted (run_log st' evs)
         \<and> (\<forall>p \<in> set (run_log st' evs).
               0 < D \<and> (\<exists>t \<in> set (reported_times evs). p = min (real t / real D * 100) 100))"
    using Cons.IH [of st'] inv rest_durs rest_sorted by blast
  show ?case
  proof (cases r)
    case None
    have sub: "set (reported_times evs) \<subseteq> set (reported_times (ev # evs))"
      by (auto simp add: reported_times_def split: option.splits)
    have run: "run_log st (ev # evs) = run_log st' evs"
      using step None by simp
    show ?thesis using ih sub unfolding run by blast
  next
    case (Some p)
    then obtain t where t: "reported_time ev = Some t" "p = min (real t / real D * 100) 100" "0 < D"
      using inv by blast
    have times: "reported_times (ev # evs) = t # reported_times evs"
      using t(1) by (simp add: reported_times_def)
    have below: "\<forall>q \<in> set (run_log st' evs). p \<le> q"
    proof
      fix q assume "q \<in> set (run_log st' evs)"
      then obtain t' where t': "t' \<in> set (reported_times evs)" "q = min (real t' / real D * 100) 100"
        using ih by blast
      have "t \<le> t'" using Cons.prems(3) t'(1) by (simp add: times)
      then show "p \<le> q" using t(2) t(3) t'(2) progress_mono by simp
    qed
    have run: "run_log st (ev # evs) = p # run_log st' evs"
      using step Some by simp
    show ?thesis
      unfolding run times using ih below t by auto
  qed
qed

lemma steady_log_sorted:
  assumes "steady_log evs"
  shows "sorted (run_log \<lparr>videoDuration = 0, lastProgressUpdate = 0\<rparr> evs)"
proof (cases "reported_durations evs")
  case Nil
  then show ?thesis
    using assms run_log_steady [of "\<lparr>videoDuration = 0, lastProgressUpdate = 0\<rparr>" 0 evs]
    by (simp add: steady_log_def)
next
  case (Cons D ds)
  then have "\<forall>d \<in> set (reported_durations evs). d = D"
    using assms by (simp add: steady_log_def)
  then show ?thesis
    using assms run_log_steady [of "\<lparr>videoDuration = 0, lastProgressUpdate = 0\<rparr>" D evs]
    by (simp add: steady_log_def)
qed

lemma convertToGif_progress:
  assumes "convertToGif svc f s env = (svc', ps, res)"
  shows "(ps = [] \<and> (\<forall>gif. res \<noteq> Resolved gif))
         \<or> (ps = run_log \<lparr>videoDuration = 0, lastProgressUpdate = 0\<rparr> (exec_log env)
              \<and> (\<forall>gif. res \<noteq> Resolved gif))
         \<or> (ps = run_log \<lparr>videoDuration = 0, lastProgressUpdate = 0\<rparr> (exec_log env) @ [100]
              \<and> (\<exists>gif. res = Resolved gif))"
  using assms
  by (auto simp add: convertToGif_def Let_def
           split: option.splits sum.splits if_splits exec_outcome.splits)


text \<open>
  C7, as the specification states it, fails: the listener forwards whatever position the
  engine logs. With a log whose second position is behind the first, a successful
  conversion passes 50, then 30, then 100 to \<open>onProgress\<close>.
\<close>

theorem C7_progress_counterexample:
  "fst (snd (convertToGif sample_service sample_file sample_settings (env_success falling_log)))
     = [50, 30, 100]
   \<and> snd (snd (convertToGif sample_service sample_file sample_settings (env_success falling_log)))
     = Resolved \<lparr>blobType = ''image/gif'', blobData = [71, 73, 70]\<rparr>"
  by (simp add: service_eval log_eval falling_log_def Let_def)

text \<open>
  C7 (amended): during one call of \<open>convertToGif\<close> every value passed to \<open>onProgress\<close> lies
  in [0, 100], and on success the last value passed is exactly 100. The values are
  non-decreasing when the engine's log is steady, that is, when it always reports the same
  duration and its reported positions never go back.
\<close>

theorem C7_progress_values:
  assumes "convertToGif svc f s env = (svc', ps, res)"
  shows "(\<forall>p \<in> set ps. 0 \<le> p \<and> p \<le> 100)
         \<and> (\<forall>gif. res = Resolved gif \<longrightarrow> ps \<noteq> [] \<and> last ps = 100)
         \<and> (steady_log (exec_log env) \<longrightarrow> sorted ps)"
proof -
  let ?run = "run_log \<lparr>videoDuration = 0, lastProgressUpdate = 0\<rparr> (exec_log env)"
  have range: "\<forall>p \<in> set ?run. 0 \<le> p \<and> p \<le> 100" by (rule run_log_range)
  have shape: "(ps = [] \<and> (\<forall>gif. res \<noteq> Resolved gif))
         \<or> (ps = ?run \<and> (\<forall>gif. res \<noteq> Resolved gif))
         \<or> (ps = ?run @ [100] \<and> (\<exists>gif. res = Resolved gif))"
    using assms by (rule convertToGif_progress)
  have bounds: "\<forall>p \<in> set ps. 0 \<le> p \<and> p \<le> 100"
    using shape range by auto
  have final: "\<forall>gif. res = Resolved gif \<longrightarrow> ps \<noteq> [] \<and> last ps = 100"
    using shape by auto
  have mono: "steady_log (exec_log env) \<longrightarrow> sorted ps"
  proof
    assume "steady_log (exec_log env)"
    then have "sorted ?run" by (rule steady_log_sorted)
    then show "sorted ps" using shape range by (auto simp add: sorted_append)
  qed
  show ?thesis using bounds final mono by blast
qed

theorem C7_progress_values_witness:
  "steady_log (exec_log (env_success rising_log))
   \<and> fst (snd (convertToGif sample_service sample_file sample_settings (env_success rising_log)))
       = [30, 50, 100]
   \<and> sorted (fst (snd (convertToGif sample_service sample_file sample_settings (env_success rising_log))))
   \<and> last (fst (snd (convertToGif sample_service sample_file sample_settings (env_success rising_log))))
       = 100"
proof -
  let ?r = "convertToGif sample_service sample_file sample_settings (env_success rising_log)"
  have steady: "steady_log (exec_log (env_success rising_log))"
    by (simp add: steady_log_def reported_times_def reported_durations_def reported_time_def
          reported_duration_def env_success_def rising_log_def log_eval)
  have vals: "fst (snd ?r) = [30, 50, 100]"
    by (simp add: service_eval log_eval rising_log_def Let_def)
  have res: "snd (snd ?r) = Resolved \<lparr>blobType = ''image/gif'', blobData = [71, 73, 70]\<rparr>"
    by (simp add: service_eval log_eval rising_log_def Let_def)
  have "?r = (fst ?r, fst (snd ?r), snd (snd ?r))" by simp
  from C7_progress_values [OF this]
  have "sorted (fst (snd ?r)) \<and> last (fst (snd ?r)) = 100"
    using steady res by blast
  then show ?thesis using steady vals by blast
qed

section \<open>Cleanup of the engine's private storage\<close>

lemma convertToGif_success_cleans:
  assumes "convertToGif svc f s env = (svc', ps, Resolved gif)"
  shows "\<exists>inst. ffmpeg svc' = Some inst
           \<and> files inst inputFileName = None \<and> files inst outputFileName = None"
  using assms
  by (auto simp add: convertToGif_def Let_def deleteFile_def
           split: option.splits sum.splits if_splits exec_outcome.splits)

text \<open>
  C3 fails on the failure path. The two \<open>deleteFile\<close> calls stand inside the \<open>try\<close> block
  after \<open>exec\<close> and \<open>readFile\<close>; the \<open>catch\<close> block only rethrows. When \<open>exec\<close> rejects, the
  call throws while the staged input is still in the engine's storage.
\<close>

theorem C3_failure_keeps_staged_input:
  "snd (snd (convertToGif sample_service sample_file sample_settings env_exec_rejects))
     = Rejected (ErrorObj ''Video conversion failed: unsupported codec. Please try a different video file or adjust the settings.'')
   \<and> map_option (\<lambda>inst. files inst inputFileName)
         (ffmpeg (fst (convertToGif sample_service sample_file sample_settings env_exec_rejects)))
     = Some (Some [0, 0, 0, 24])"
  by (simp add: service_eval Let_def)

section \<open>Properties of the conversion workflow\<close>

lemmas page_eval =
  handleConvert_def initializeFFmpeg_def initialize_def isLoaded_def after_effects_def
  sample_state_def sample_metadata_def conversion_error_def conversion_error_message_def
  timeout_message_def CONVERSION_TIMEOUT_def engine_busy_def

lemma timeout_message_kept: "conversion_error_message (ErrorObj timeout_message) = timeout_message"
  by (simp add: conversion_error_message_def timeout_message_def)

lemma after_effects_append:
  "after_effects state (xs @ ys) = after_effects (after_effects state xs) ys"
  by (simp add: after_effects_def)

lemma after_effects_error:
  "after_effects state (xs @ [TimeoutFired, ClearTimeout, Dispatch (SET_ERROR e)])
     = (after_effects state xs)\<lparr>errorState := Some e, conversionStatus := StatusError\<rparr>"
  by (simp add: after_effects_def)

lemma engine_comes_up_loaded:
  assumes "engine_comes_up state svc lo"
  shows "\<exists>init_effects svc1.
          (if \<not> ffmpegLoaded state then initializeFFmpeg svc lo else ([], svc, Resolved ()))
             = (init_effects, svc1, Resolved ()) \<and> isLoaded svc1"
proof (cases "isLoaded svc")
  case True
  then show ?thesis by (simp add: initializeFFmpeg_def)
next
  case False
  then have fresh: "\<not> ffmpegLoaded state" "\<not> loaded svc" "initPromise svc = None" "lo = LoadOk"
    using assms by (simp_all add: engine_comes_up_def)
  have "initialize svc lo
          = (svc\<lparr>ffmpeg := Some new_FFmpeg, loaded := True, initPromise := Some (Resolved ())\<rparr>,
             Resolved ())"
    using fresh by (simp add: initialize_def)
  then show ?thesis
    using False fresh(1) by (simp add: initializeFFmpeg_def isLoaded_def)
qed

lemma handleConvert_ignores_status:
  "handleConvert (state\<lparr>conversionStatus := c, progress := p, errorState := e\<rparr>) svc lo env
     = handleConvert state svc lo env"
proof -
  define state' where "state' = state\<lparr>conversionStatus := c, progress := p, errorState := e\<rparr>"
  have same: "uploadedFile state' = uploadedFile state" "videoMetadata state' = videoMetadata state"
      "ffmpegLoaded state' = ffmpegLoaded state" "settings state' = settings state"
    by (simp_all add: state'_def)
  have "handleConvert state' svc lo env = handleConvert state svc lo env"
    unfolding handleConvert_def by (simp only: same)
  then show ?thesis by (simp only: state'_def)
qed

lemma handleConvert_guard:
  "fst (handleConvert state svc lo env) = []
     \<longleftrightarrow> uploadedFile state = None \<or> videoMetadata state = None"
  by (auto simp add: handleConvert_def Let_def split: option.splits prod.splits promise.splits)


text \<open>
  C9, as the specification states it, fails in its last part: after the timeout has been
  reported the engine is still loaded with the conversion in flight, which is the busy
  state; nothing in \<open>handleConvert\<close> terminates or resets the engine.
\<close>

theorem C9_timeout_counterexample:
  "engine_busy (snd (handleConvert (sample_state StatusIdle 0) sample_service LoadOk env_exec_never))
   \<and> conversionStatus
        (after_effects (sample_state StatusIdle 0)
           (fst (handleConvert (sample_state StatusIdle 0) sample_service LoadOk env_exec_never)))
       = StatusError"
  by (simp add: page_eval service_eval log_eval rising_log_def Let_def)

text \<open>
  C9 (amended): if the engine's \<open>exec\<close> call never settles, \<open>handleConvert\<close> arms its
  five-minute timer first (before the engine is loaded lazily), and when the timer fires it
  reports the timeout message, sets the status to error and stores a recoverable error
  whose retry action is \<open>handleConvert\<close>. It does not terminate or reset the engine: the
  service stays loaded, the conversion is still in flight and the staged input is still in
  the engine's storage.
\<close>

theorem C9_timeout_reported:
  assumes "uploadedFile state = Some f" and "videoMetadata state = Some m"
    and "engine_comes_up state svc lo"
    and "fetchFile_result env = Inr d" and "writeFile_result env = None"
    and "exec_result env = ExecNever"
    and "handleConvert state svc lo env = (effs, svc')"
  shows "hd effs = SetTimeout (5 * 60 * 1000)
         \<and> (\<exists>pre. effs = pre @ [TimeoutFired, ClearTimeout,
                Dispatch (SET_ERROR \<lparr>errorType = Conversion, message = timeout_message,
                                     recoverable = True, retryAction = Some HandleConvert\<rparr>)])
         \<and> conversionStatus (after_effects state effs) = StatusError
         \<and> errorState (after_effects state effs)
             = Some \<lparr>errorType = Conversion, message = timeout_message,
                     recoverable = True, retryAction = Some HandleConvert\<rparr>
         \<and> isLoaded svc' \<and> engine_busy svc'
         \<and> (\<exists>inst. ffmpeg svc' = Some inst \<and> files inst inputFileName = Some d)"
proof -
  let ?err = "\<lparr>errorType = Conversion, message = timeout_message,
               recoverable = True, retryAction = Some HandleConvert\<rparr>"
  have "\<exists>init_effects svc1.
          (if \<not> ffmpegLoaded state then initializeFFmpeg svc lo else ([], svc, Resolved ()))
             = (init_effects, svc1, Resolved ()) \<and> isLoaded svc1"
    using assms(3) by (rule engine_comes_up_loaded)
  then obtain init_effects svc1 where
    init: "(if \<not> ffmpegLoaded state then initializeFFmpeg svc lo else ([], svc, Resolved ()))
             = (init_effects, svc1, Resolved ())"
    and up: "isLoaded svc1"
    by blast
  obtain inst1 where inst1: "ffmpeg svc1 = Some inst1" and ld: "loaded svc1"
    using up by (auto simp add: isLoaded_def)
  let ?started = "SetTimeout CONVERSION_TIMEOUT # init_effects
        @ [Dispatch (SET_STATUS StatusProcessing), Dispatch (SET_PROGRESS 0),
           Dispatch CLEAR_ERROR, CallConvertToGif f (settings state)]
        @ map (\<lambda>p. Dispatch (SET_PROGRESS p))
            (run_log \<lparr>videoDuration = 0, lastProgressUpdate = 0\<rparr> (exec_log env))"
  let ?inst = "inst1\<lparr>files := (files inst1)(inputFileName \<mapsto> d),
                     logListeners := logListeners inst1 + 1, execInFlight := True\<rparr>"
  have conv: "convertToGif svc1 f (settings state) env
                = (svc1\<lparr>ffmpeg := Some ?inst\<rparr>,
                   run_log \<lparr>videoDuration = 0, lastProgressUpdate = 0\<rparr> (exec_log env), Pending)"
    using assms(4,5,6) inst1 ld by (simp add: convertToGif_def Let_def)
  have run: "handleConvert state svc lo env
               = (?started @ [TimeoutFired, ClearTimeout, Dispatch (SET_ERROR ?err)],
                  svc1\<lparr>ffmpeg := Some ?inst\<rparr>)"
    using assms(1,2) init conv
    by (simp add: handleConvert_def Let_def conversion_error_def timeout_message_kept)
  have effs: "effs = ?started @ [TimeoutFired, ClearTimeout, Dispatch (SET_ERROR ?err)]"
    and svc': "svc' = svc1\<lparr>ffmpeg := Some ?inst\<rparr>"
    using run assms(7) by simp_all
  have first: "hd effs = SetTimeout (5 * 60 * 1000)"
    by (simp add: effs CONVERSION_TIMEOUT_def)
  have last3: "\<exists>pre. effs = pre @ [TimeoutFired, ClearTimeout, Dispatch (SET_ERROR ?err)]"
    using effs by blast
  have final: "after_effects state effs
                 = (after_effects state ?started)\<lparr>errorState := Some ?err,
                                                     conversionStatus := StatusError\<rparr>"
    unfolding effs by (rule after_effects_error)
  have status: "conversionStatus (after_effects state effs) = StatusError"
    and err: "errorState (after_effects state effs) = Some ?err"
    by (simp_all add: final)
  have engine: "isLoaded svc' \<and> engine_busy svc'
         \<and> (\<exists>inst. ffmpeg svc' = Some inst \<and> files inst inputFileName = Some d)"
    using ld by (simp add: svc' isLoaded_def engine_busy_def)
  show ?thesis using first last3 status err engine by blast
qed

theorem C9_timeout_reported_witness:
  "engine_comes_up (sample_state StatusIdle 0) sample_service LoadOk
   \<and> exec_result env_exec_never = ExecNever
   \<and> hd (fst (handleConvert (sample_state StatusIdle 0) sample_service LoadOk env_exec_never))
       = SetTimeout 300000
   \<and> conversionStatus
        (after_effects (sample_state StatusIdle 0)
           (fst (handleConvert (sample_state StatusIdle 0) sample_service LoadOk env_exec_never)))
       = StatusError
   \<and> isLoaded (snd (handleConvert (sample_state StatusIdle 0) sample_service LoadOk env_exec_never))
   \<and> engine_busy (snd (handleConvert (sample_state StatusIdle 0) sample_service LoadOk env_exec_never))"
proof -
  let ?r = "handleConvert (sample_state StatusIdle 0) sample_service LoadOk env_exec_never"
  have has_file: "uploadedFile (sample_state StatusIdle 0) = Some sample_file"
    and has_meta: "videoMetadata (sample_state StatusIdle 0) = Some sample_metadata"
    by (simp_all add: sample_state_def)
  have up: "engine_comes_up (sample_state StatusIdle 0) sample_service LoadOk"
    by (simp add: engine_comes_up_def isLoaded_def sample_service_def)
  have fetched: "fetchFile_result env_exec_never = Inr (fileData sample_file)"
    and written: "writeFile_result env_exec_never = None"
    and hangs: "exec_result env_exec_never = ExecNever"
    by (simp_all add: env_exec_never_def)
  have run: "?r = (fst ?r, snd ?r)" by simp
  show ?thesis
    using up hangs C9_timeout_reported [OF has_file has_meta up fetched written hangs run] by simp
qed

section \<open>Properties of the trim marks\<close>

lemma tenth_double: "fl (1 / 10) = 3602879701896397 / 2 ^ 55"
  by (simp add: fl_eval)

lemma fl_upper:
  "fl x \<le> x + \<bar>x\<bar> / 2 ^ 53"
  using fl_relative [of x] by linarith

lemma fl_lower:
  "x - \<bar>x\<bar> / 2 ^ 53 \<le> fl x"
  using fl_relative [of x] by linarith

lemma mark_in_bound:
  assumes "1 / 10 \<le> e" and "e \<le> d"
  shows "fl (e - fl (1 / 10)) \<le> e - 1 / 10 + (d + 1) / 2 ^ 53"
proof -
  define x where "x = e - fl (1 / 10)"
  have c: "1 / 10 \<le> fl (1 / 10)" by (simp add: tenth_double)
  have "x + \<bar>x\<bar> / 2 ^ 53 \<le> e - 1 / 10 + (d + 1) / 2 ^ 53"
  proof (cases "0 \<le> x")
    case True
    then have "\<bar>x\<bar> \<le> d + 1" using c assms unfolding x_def by linarith
    then have "\<bar>x\<bar> / 2 ^ 53 \<le> (d + 1) / 2 ^ 53" by (rule divide_right_mono) simp
    then show ?thesis using c unfolding x_def by linarith
  next
    case False
    then have "x + \<bar>x\<bar> / 2 ^ 53 \<le> 0" by simp
    moreover have "0 \<le> (d + 1) / 2 ^ 53" using assms by simp
    ultimately show ?thesis using assms by linarith
  qed
  then show ?thesis using fl_upper [of x] unfolding x_def by linarith
qed

lemma mark_out_bound:
  assumes "0 \<le> s" and "s \<le> e - 1 / 10" and "e \<le> d"
  shows "s + 1 / 10 - (d + 1) / 2 ^ 53 \<le> fl (s + fl (1 / 10))"
proof -
  define z where "z = s + fl (1 / 10)"
  have c: "1 / 10 \<le> fl (1 / 10)" "fl (1 / 10) \<le> 1 / 10 + 1" by (simp_all add: tenth_double)
  have "\<bar>z\<bar> \<le> d + 1" using c assms unfolding z_def by linarith
  then have "\<bar>z\<bar> / 2 ^ 53 \<le> (d + 1) / 2 ^ 53" by (rule divide_right_mono) simp
  then have "s + 1 / 10 - (d + 1) / 2 ^ 53 \<le> z - \<bar>z\<bar> / 2 ^ 53"
    using c unfolding z_def by linarith
  then show ?thesis using fl_lower [of z] unfolding z_def by linarith
qed

lemma clamp_from_above:
  fixes U :: real
  assumes "0 \<le> U" and "y \<le> U"
  shows "max 0 (min ct y) \<le> U"
  using assms by (simp add: min_le_iff_disj)

lemma clamp_from_below:
  fixes L :: real
  assumes "L \<le> d" and "L \<le> y"
  shows "L \<le> min d (max ct y)"
  using assms by (simp add: le_max_iff_disj)

text \<open>
  C10, as the specification states it, fails in double arithmetic: with the window from
  0 to 0.8 in a 10 second video, Mark IN at position 5 sets the start to
  \<open>0.8 - 0.1 = 0.7000000000000001\<close>, which leaves a window shorter than 0.1 seconds.
\<close>

theorem C10_mark_in_counterexample:
  "trim_ok 10 0 (fl (8 / 10))
   \<and> handleMarkIn False (Num 5)
        \<lparr>localStartTime = 0, localEndTime = fl (8 / 10),
         startTimeInput = ''0:00.00'', endTimeInput = ''0:00.80''\<rparr>
       = Some (\<lparr>localStartTime = 6305039478318695 / 2 ^ 53, localEndTime = fl (8 / 10),
                 startTimeInput = ''0:00.70'', endTimeInput = ''0:00.80''\<rparr>,
               6305039478318695 / 2 ^ 53, fl (8 / 10))
   \<and> fl (8 / 10) - 6305039478318695 / 2 ^ 53 < 1 / 10"
proof -
  define E :: real where "E = 3602879701896397 / 2 ^ 52"
  define V :: real where "V = 6305039478318695 / 2 ^ 53"
  define T :: timeline where
    "T = \<lparr>localStartTime = 0, localEndTime = E,
          startTimeInput = ''0:00.00'', endTimeInput = ''0:00.80''\<rparr>"
  have e: "fl (8 / 10) = E" by (simp add: E_def fl_eval)
  have v: "max 0 (min 5 (fl (E - fl (1 / 10)))) = V" by (simp add: E_def V_def fl_eval)
  have str: "formatTime V = ''0:00.70''"
    by (simp add: V_def formatTime_def js_rem_def trunc_def Number_toString_def padStart_def
        nat_digits.simps digit_char_def fl_eval)
  have le: "localEndTime T = E" by (simp add: T_def)
  have ok: "trim_ok 10 0 E" by (simp add: trim_ok_def E_def)
  have short: "E - V < 1 / 10" by (simp add: E_def V_def)
  have "handleMarkIn False (Num 5) T
          = Some (T\<lparr>localStartTime := V, startTimeInput := ''0:00.70''\<rparr>, V, E)"
    by (simp add: handleMarkIn_def Let_def le v str)
  then have run: "handleMarkIn False (Num 5) T
          = Some (\<lparr>localStartTime = V, localEndTime = E,
                    startTimeInput = ''0:00.70'', endTimeInput = ''0:00.80''\<rparr>, V, E)"
    by (simp add: T_def)
  show ?thesis
    unfolding e using ok short run [unfolded T_def] unfolding V_def by blast
qed

text \<open>
  C10 (amended): for every duration \<open>d > 0.1\<close> and every trim range with
  \<open>0 \<le> startTime \<le> endTime - 0.1\<close> and \<open>endTime \<le> d\<close>, Mark IN at any finite playback
  position (controls enabled) sets a start time with
  \<open>0 \<le> startTime' \<le> endTime - 0.1 + (d + 1) / 2^53\<close>, and Mark OUT sets an end time with
  \<open>startTime + 0.1 - (d + 1) / 2^53 \<le> endTime' \<le> d\<close>: both keep the window inside \<open>[0, d]\<close>
  and at least 0.1 seconds long up to one rounding of the double subtraction or addition.
\<close>

theorem C10_marks_preserve_window:
  assumes "1 / 10 < d" and "trim_ok d (localStartTime t) (localEndTime t)"
  shows "(\<exists>t' s'. handleMarkIn False (Num ct) t = Some (t', s', localEndTime t)
            \<and> localStartTime t' = s' \<and> localEndTime t' = localEndTime t
            \<and> 0 \<le> s' \<and> s' \<le> localEndTime t - 1 / 10 + (d + 1) / 2 ^ 53)
       \<and> (\<exists>t' e'. handleMarkOut False (Num ct) d t = Some (t', localStartTime t, e')
            \<and> localEndTime t' = e' \<and> localStartTime t' = localStartTime t
            \<and> localStartTime t + 1 / 10 - (d + 1) / 2 ^ 53 \<le> e' \<and> e' \<le> d)"
proof -
  define s where "s = localStartTime t"
  define e where "e = localEndTime t"
  have w: "0 \<le> s" "s \<le> e - 1 / 10" "e \<le> d"
    using assms(2) by (simp_all add: trim_ok_def s_def e_def)
  have tol: "0 \<le> (d + 1) / 2 ^ 53" using assms(1) by simp
  have "1 / 10 \<le> e" using w by linarith
  then have a: "fl (e - fl (1 / 10)) \<le> e - 1 / 10 + (d + 1) / 2 ^ 53"
    using w(3) by (rule mark_in_bound)
  have b: "s + 1 / 10 - (d + 1) / 2 ^ 53 \<le> fl (s + fl (1 / 10))"
    using w by (rule mark_out_bound)
  have "0 \<le> e - 1 / 10 + (d + 1) / 2 ^ 53" using w tol by linarith
  then have mark_in: "max 0 (min ct (fl (e - fl (1 / 10)))) \<le> e - 1 / 10 + (d + 1) / 2 ^ 53"
    using a by (rule clamp_from_above)
  have "s + 1 / 10 - (d + 1) / 2 ^ 53 \<le> d" using w tol by linarith
  then have mark_out: "s + 1 / 10 - (d + 1) / 2 ^ 53 \<le> min d (max ct (fl (s + fl (1 / 10))))"
    using b by (rule clamp_from_below)
  show ?thesis
    using mark_in mark_out
    by (simp add: handleMarkIn_def handleMarkOut_def Let_def s_def e_def)
qed

theorem C10_marks_preserve_window_witness:
  "(1 / 10 :: real) < 10
   \<and> trim_ok 10 2 8
   \<and> (\<exists>t' s'. handleMarkIn False (Num 9)
                  \<lparr>localStartTime = 2, localEndTime = 8,
                   startTimeInput = ''0:02.00'', endTimeInput = ''0:08.00''\<rparr>
                = Some (t', s', 8)
            \<and> localStartTime t' = s' \<and> localEndTime t' = 8
            \<and> 0 \<le> s' \<and> s' \<le> 8 - 1 / 10 + (10 + 1) / 2 ^ 53)
   \<and> (\<exists>t' e'. handleMarkOut False (Num 9) 10
                  \<lparr>localStartTime = 2, localEndTime = 8,
                   startTimeInput = ''0:02.00'', endTimeInput = ''0:08.00''\<rparr>
                = Some (t', 2, e')
            \<and> localEndTime t' = e' \<and> localStartTime t' = 2
            \<and> 2 + 1 / 10 - (10 + 1) / 2 ^ 53 \<le> e' \<and> e' \<le> 10)"
proof -
  define t :: timeline where
    "t = \<lparr>localStartTime = 2, localEndTime = 8,
          startTimeInput = ''0:02.00'', endTimeInput = ''0:08.00''\<rparr>"
  have sel: "localStartTime t = 2" "localEndTime t = 8" by (simp_all add: t_def)
  have d: "(1 / 10 :: real) < 10" by simp
  have w: "trim_ok 10 (localStartTime t) (localEndTime t)" by (simp add: sel trim_ok_def)
  have w': "trim_ok 10 2 8" by (simp add: trim_ok_def)
  show ?thesis
    using d w' C10_marks_preserve_window [OF d w, of 9, unfolded sel, unfolded t_def] by blast
qed

section \<open>Properties of the time codes\<close>

lemmas time_eval =
  formatTime_def js_rem_def trunc_def Number_toString_def padStart_def nat_digits.simps
  digit_char_def parseTime_def fraction_part_def add_fraction_def number_of_int_def
  parseInt10_def is_digit_def is_space_def digits_val_def digit_val_def

lemma number_of_small_int:
  assumes "\<bar>i\<bar> < 2 ^ 53"
  shows "number_of_int i = of_int i"
  unfolding number_of_int_def using assms by (rule fl_of_int)

lemma parseTime_of_fields:
  assumes M: "M \<noteq> []" "\<forall>c \<in> set M. is_digit c"
    and S: "S \<noteq> []" "\<forall>c \<in> set S. is_digit c"
    and C: "C \<noteq> []" "\<forall>c \<in> set C. is_digit c"
  shows "parseTime (M @ '':'' @ S @ ''.'' @ C)
           = Some (Num (fl (fl (fl (number_of_int (int (digits_val M)) * 60)
                                + number_of_int (int (digits_val S)))
                            + fl (number_of_int (int (digits_val C)) / 100))))"
proof -
  have no_colon: "CHR '':'' \<notin> set M" "CHR '':'' \<notin> set (S @ CHR ''.'' # C)"
    using digits_free_of [OF M(2)] digits_free_of [OF S(2)] digits_free_of [OF C(2)] by auto
  have no_dot: "CHR ''.'' \<notin> set S" "CHR ''.'' \<notin> set C"
    using digits_free_of [OF S(2)] digits_free_of [OF C(2)] by auto
  have parts: "split_on CHR '':'' (M @ CHR '':'' # S @ CHR ''.'' # C) = [M, S @ CHR ''.'' # C]"
    using split_on_first [OF no_colon(1), of "S @ CHR ''.'' # C"] split_on_single [OF no_colon(2)]
    by simp
  have secsParts: "split_on CHR ''.'' (S @ CHR ''.'' # C) = [S, C]"
    using split_on_first [OF no_dot(1), of C] split_on_single [OF no_dot(2)] by simp
  have frac: "fraction_part [S, C] = Num (fl (number_of_int (int (digits_val C)) / 100))"
    using C(1) parseInt10_digits [OF C] by (simp add: fraction_part_def)
  show ?thesis
    using parseInt10_digits [OF M] parseInt10_digits [OF S]
    by (simp add: parseTime_def parts secsParts frac add_fraction_def)
qed

lemma formatTime_fields:
  assumes "is_double x" and "0 \<le> x" and "x < 2 ^ 53"
  defines "m \<equiv> \<lfloor>x / 60\<rfloor>" and "k \<equiv> \<lfloor>fl ((x - of_int \<lfloor>x\<rfloor>) * 100)\<rfloor>"
  shows "formatTime x
           = nat_digits (nat m) @ '':'' @ padStart 2 (CHR ''0'') (nat_digits (nat (\<lfloor>x\<rfloor> - 60 * m)))
             @ ''.'' @ padStart 2 (CHR ''0'') (nat_digits (nat k))"
    and "0 \<le> m" and "0 \<le> \<lfloor>x\<rfloor> - 60 * m" and "0 \<le> k"
proof -
  show m0: "0 \<le> m" using assms(2) by (simp add: m_def)
  have "of_int m \<le> x / 60" unfolding m_def by (rule of_int_floor_le)
  moreover have "real_of_int (60 * m) = 60 * of_int m" by simp
  ultimately have "real_of_int (60 * m) \<le> x" by linarith
  then have "60 * m \<le> \<lfloor>x\<rfloor>" by (simp only: le_floor_iff)
  then show s0: "0 \<le> \<lfloor>x\<rfloor> - 60 * m" by simp
  have "0 \<le> (x - of_int \<lfloor>x\<rfloor>) * 100" by simp
  then have "0 \<le> fl ((x - of_int \<lfloor>x\<rfloor>) * 100)" by (rule fl_nonneg)
  then show k0: "0 \<le> k" by (simp add: k_def)
  have mins: "\<lfloor>fl (x / 60)\<rfloor> = m"
    unfolding m_def using assms(1,2,3) by (rule floor_fl_div60)
  have rem60: "js_rem x 60 = x - of_int (60 * m)"
    using assms(2) by (simp add: js_rem_def trunc_def m_def)
  have secs: "\<lfloor>js_rem x 60\<rfloor> = \<lfloor>x\<rfloor> - 60 * m"
    by (simp only: rem60 floor_diff_of_int)
  have rem1: "js_rem x 1 = x - of_int \<lfloor>x\<rfloor>"
    using assms(2) by (simp add: js_rem_def trunc_def)
  have ms: "\<lfloor>fl (js_rem x 1 * 100)\<rfloor> = k"
    by (simp only: rem1 k_def)
  have str: "\<And>i. 0 \<le> i \<Longrightarrow> Number_toString i = nat_digits (nat i)"
    by (simp add: Number_toString_def)
  have "formatTime x
          = Number_toString m @ '':'' @ padStart 2 (CHR ''0'') (Number_toString (\<lfloor>x\<rfloor> - 60 * m))
            @ ''.'' @ padStart 2 (CHR ''0'') (Number_toString k)"
    unfolding formatTime_def Let_def secs ms mins ..
  then show "formatTime x
           = nat_digits (nat m) @ '':'' @ padStart 2 (CHR ''0'') (nat_digits (nat (\<lfloor>x\<rfloor> - 60 * m)))
             @ ''.'' @ padStart 2 (CHR ''0'') (nat_digits (nat k))"
    by (simp only: str [OF m0] str [OF s0] str [OF k0])
qed

lemma centisecond_round_trip:
  assumes "0 \<le> x" and "x \<le> 3599"
  defines "k \<equiv> \<lfloor>fl ((x - of_int \<lfloor>x\<rfloor>) * 100)\<rfloor>"
  shows "k \<le> 100"
    and "\<bar>fl (of_int \<lfloor>x\<rfloor> + fl (of_int k / 100)) - x\<bar> \<le> 1 / 100 + (x + 4) / 2 ^ 53"
proof -
  define u :: real where "u = 1 / 2 ^ 53"
  have u: "0 < u" "100 * u < 1" by (simp_all add: u_def)
  have xu: "x * u + 4 * u = (x + 4) / 2 ^ 53" by (simp add: u_def add_divide_distrib)
  have rel: "\<bar>fl a - a\<bar> \<le> \<bar>a\<bar> * u" for a
    using fl_relative [of a] by (simp add: u_def)
  define N where "N = \<lfloor>x\<rfloor>"
  define f where "f = x - of_int N"
  define p where "p = f * 100"
  define P where "P = fl p"
  have "real_of_int \<lfloor>x\<rfloor> \<le> x" by (rule of_int_floor_le)
  moreover have "0 \<le> \<lfloor>x\<rfloor>" using assms(1) by simp
  ultimately have N: "0 \<le> real_of_int N" "real_of_int N \<le> 3599"
    using assms(2) unfolding N_def by simp_all
  have f: "0 \<le> f" "f < 1" unfolding f_def N_def by linarith+
  have p: "0 \<le> p" "p < 100" using f unfolding p_def by linarith+
  have "\<bar>p\<bar> * u \<le> 100 * u" using p u(1) by (intro mult_right_mono) linarith+
  then have Pp: "\<bar>P - p\<bar> \<le> 100 * u" using rel [of p] unfolding P_def by linarith
  have P0: "0 \<le> P" unfolding P_def using p(1) by (rule fl_nonneg)
  have k_eq: "k = \<lfloor>P\<rfloor>" by (simp add: k_def P_def p_def f_def N_def)
  have kP: "of_int k \<le> P" "P < of_int k + 1" unfolding k_eq by linarith+
  have k0: "0 \<le> k" unfolding k_eq using P0 by simp
  have "real_of_int k < 101" using kP Pp p u by linarith
  then have "k < 101" by simp
  then show k100: "k \<le> 100" by simp
  define q where "q = real_of_int k / 100"
  have q: "0 \<le> q" "q \<le> 1" using k0 k100 unfolding q_def by simp_all
  define c where "c = fl q"
  have "\<bar>q\<bar> * u \<le> 1 * u" using q u(1) by (intro mult_right_mono) linarith+
  then have cq: "\<bar>c - q\<bar> \<le> u" using rel [of q] unfolding c_def by linarith
  have c0: "0 \<le> c" unfolding c_def using q(1) by (rule fl_nonneg)
  define z where "z = of_int N + c"
  have "real_of_int N \<le> x" unfolding N_def by (rule of_int_floor_le)
  then have z: "0 \<le> z" "z \<le> x + 2" using N c0 cq q u unfolding z_def by linarith+
  have "\<bar>z\<bar> * u \<le> (x + 2) * u" using z u(1) by (intro mult_right_mono) linarith+
  then have "\<bar>z\<bar> * u \<le> x * u + 2 * u" by (simp add: distrib_right)
  then have yz: "\<bar>fl z - z\<bar> \<le> x * u + 2 * u" using rel [of z] by linarith
  have e1: "fl z - z \<le> x * u + 2 * u" "z - fl z \<le> x * u + 2 * u" using yz by linarith+
  have e2: "c - q \<le> u" "q - c \<le> u" using cq by linarith+
  have e3: "P - p \<le> 100 * u" "p - P \<le> 100 * u" using Pp by linarith+
  have e4: "q * 100 \<le> P" "P < q * 100 + 1" using kP by (simp_all add: q_def)
  have pd: "p = 100 * x - 100 * of_int N" by (simp add: p_def f_def algebra_simps)
  have s1: "q * 100 \<le> p + 100 * u" using e3(1) e4(1) by linarith
  have s2: "q \<le> (x - of_int N) + u" using s1 unfolding pd by linarith
  have s3: "c \<le> (x - of_int N) + 2 * u" using s2 e2(1) by linarith
  have up: "fl z - x \<le> x * u + 4 * u" using e1(1) s3 unfolding z_def by linarith
  have t1: "p - 100 * u - 1 < q * 100" using e3(2) e4(2) by linarith
  have t2: "(x - of_int N) - u - 1 / 100 < q" using t1 unfolding pd by linarith
  have t3: "(x - of_int N) - 2 * u - 1 / 100 < c" using t2 e2(2) by linarith
  have dn: "x - fl z \<le> 1 / 100 + (x * u + 4 * u)" using e1(2) t3 unfolding z_def by linarith
  have "fl z - x \<le> 1 / 100 + (x * u + 4 * u)" using up by linarith
  moreover note dn
  ultimately have "\<bar>fl z - x\<bar> \<le> 1 / 100 + (x * u + 4 * u)" by linarith
  then have "\<bar>fl z - x\<bar> \<le> 1 / 100 + (x + 4) / 2 ^ 53" by (simp only: xu)
  then show "\<bar>fl (of_int \<lfloor>x\<rfloor> + fl (of_int k / 100)) - x\<bar> \<le> 1 / 100 + (x + 4) / 2 ^ 53"
    by (simp only: z_def c_def q_def N_def)
qed

lemma parseTime_formatTime:
  assumes "is_double x" and "0 \<le> x" and "x \<le> 3599"
  shows "parseTime (formatTime x)
           = Some (Num (fl (of_int \<lfloor>x\<rfloor> + fl (of_int \<lfloor>fl ((x - of_int \<lfloor>x\<rfloor>) * 100)\<rfloor> / 100))))"
proof -
  define m where "m = \<lfloor>x / 60\<rfloor>"
  define s where "s = \<lfloor>x\<rfloor> - 60 * m"
  define k where "k = \<lfloor>fl ((x - of_int \<lfloor>x\<rfloor>) * 100)\<rfloor>"
  define M where "M = nat_digits (nat m)"
  define S where "S = padStart 2 (CHR ''0'') (nat_digits (nat s))"
  define C where "C = padStart 2 (CHR ''0'') (nat_digits (nat k))"
  have small: "x < 2 ^ 53" using assms(3) by simp
  have fmt: "formatTime x = M @ '':'' @ S @ ''.'' @ C"
    and nonneg: "0 \<le> m" "0 \<le> s" "0 \<le> k"
    using formatTime_fields [OF assms(1,2) small]
    by (simp_all only: M_def S_def C_def m_def s_def k_def)
  have k100: "k \<le> 100"
    unfolding k_def using assms(2,3) by (rule centisecond_round_trip(1))
  have "real_of_int m \<le> x / 60" unfolding m_def by (rule of_int_floor_le)
  then have "real_of_int m < 60" using assms(3) by linarith
  then have m60: "m < 60" by simp
  have "real_of_int \<lfloor>x\<rfloor> \<le> x" by (rule of_int_floor_le)
  then have "real_of_int \<lfloor>x\<rfloor> < 3600" using assms(3) by linarith
  then have fx: "\<lfloor>x\<rfloor> < 3600" by simp
  have Mp: "M \<noteq> []" "\<forall>c \<in> set M. is_digit c" "digits_val M = nat m"
    using nat_digits_props [of "nat m"] by (simp_all add: M_def)
  have Sp: "S \<noteq> []" "\<forall>c \<in> set S. is_digit c" "digits_val S = nat s"
    using nat_digits_props [of "nat s"] padStart2_digits [of "nat_digits (nat s)"]
    by (simp_all add: S_def)
  have Cp: "C \<noteq> []" "\<forall>c \<in> set C. is_digit c" "digits_val C = nat k"
    using nat_digits_props [of "nat k"] padStart2_digits [of "nat_digits (nat k)"]
    by (simp_all add: C_def)
  have ints: "int (nat m) = m" "int (nat s) = s" "int (nat k) = k"
    using nonneg by simp_all
  have nm: "number_of_int m = of_int m" using nonneg(1) m60 by (intro number_of_small_int) simp
  have "s < 3600" using nonneg(1) fx unfolding s_def by linarith
  then have ns: "number_of_int s = of_int s"
    using nonneg(2) by (intro number_of_small_int) simp
  have nk: "number_of_int k = of_int k" using nonneg(3) k100 by (intro number_of_small_int) simp
  have "fl (real_of_int m * 60) = fl (real_of_int (m * 60))" by simp
  also have "\<dots> = real_of_int (m * 60)"
    using nonneg(1) m60 by (intro fl_of_int) simp
  finally have m60': "fl (real_of_int m * 60) = real_of_int (m * 60)" .
  have "fl (real_of_int (m * 60) + real_of_int s) = fl (real_of_int \<lfloor>x\<rfloor>)"
    by (simp add: s_def)
  also have "\<dots> = real_of_int \<lfloor>x\<rfloor>"
    using assms(2) fx by (intro fl_of_int) simp
  finally have whole: "fl (real_of_int (m * 60) + real_of_int s) = real_of_int \<lfloor>x\<rfloor>" .
  have "parseTime (formatTime x)
          = Some (Num (fl (fl (fl (number_of_int m * 60) + number_of_int s)
                           + fl (number_of_int k / 100))))"
    using parseTime_of_fields [OF Mp(1,2) Sp(1,2) Cp(1,2)]
    by (simp only: fmt Mp(3) Sp(3) Cp(3) ints)
  then have "parseTime (formatTime x)
          = Some (Num (fl (of_int \<lfloor>x\<rfloor> + fl (of_int k / 100))))"
    by (simp only: nm ns nk m60' whole)
  then show ?thesis by (simp only: k_def)
qed

text \<open>
  C4, as the specification states it, fails in double arithmetic: the double 76.33 is
  formatted as \<open>1:16.32\<close> (its fraction times 100 is just below 33), which parses to the
  double 76.32, and the two doubles are more than 0.01 apart.
\<close>

theorem C4_round_trip_counterexample:
  "(0::real) \<le> fl (7633 / 100) \<and> fl (7633 / 100) \<le> 3599
   \<and> formatTime (fl (7633 / 100)) = ''1:16.32''
   \<and> parseTime ''1:16.32'' = Some (Num (fl (7632 / 100)))
   \<and> 1 / 100 < \<bar>fl (7632 / 100) - fl (7633 / 100)\<bar>"
proof -
  have x: "fl (7633 / 100) = 5371246243081093 / 2 ^ 46" by (simp add: fl_eval)
  have y: "fl (7632 / 100) = 1342635638909829 / 2 ^ 44" by (simp add: fl_eval)
  have fmt: "formatTime (5371246243081093 / 2 ^ 46) = ''1:16.32''"
    by (simp add: time_eval fl_eval)
  have prs: "parseTime ''1:16.32'' = Some (Num (1342635638909829 / 2 ^ 44))"
    by (simp add: time_eval fl_eval)
  show ?thesis
    unfolding x y using fmt prs by simp
qed

text \<open>
  C4 (amended): for every double \<open>x\<close> in [0, 3599], \<open>parseTime (formatTime x)\<close> is a number
  (not \<open>null\<close>, not \<open>NaN\<close>) that differs from \<open>x\<close> by at most \<open>0.01 + (x + 4) / 2^53\<close>
  seconds: the centisecond that \<open>formatTime\<close> cuts off, and the rounding of the double
  operations.
\<close>

theorem C4_time_round_trip:
  assumes "is_double x" and "0 \<le> x" and "x \<le> 3599"
  shows "\<exists>y. parseTime (formatTime x) = Some (Num y) \<and> \<bar>y - x\<bar> \<le> 1 / 100 + (x + 4) / 2 ^ 53"
  using parseTime_formatTime [OF assms] centisecond_round_trip(2) [OF assms(2,3)] by blast

theorem C4_time_round_trip_witness:
  "is_double (fl (125678 / 1000))
   \<and> (0::real) \<le> fl (125678 / 1000) \<and> fl (125678 / 1000) \<le> 3599
   \<and> formatTime (fl (125678 / 1000)) = ''2:05.67''
   \<and> (\<exists>y. parseTime ''2:05.67'' = Some (Num y)
            \<and> \<bar>y - fl (125678 / 1000)\<bar> \<le> 1 / 100 + (fl (125678 / 1000) + 4) / 2 ^ 53)"
proof -
  have x: "fl (125678 / 1000) = 1105475378845057 / 2 ^ 43" by (simp add: fl_eval)
  have dbl: "is_double (1105475378845057 / 2 ^ 43)" by (simp add: is_double_def fl_eval)
  have lo: "(0::real) \<le> 1105475378845057 / 2 ^ 43" and hi: "(1105475378845057 / 2 ^ 43 :: real) \<le> 3599"
    by simp_all
  have fmt: "formatTime (1105475378845057 / 2 ^ 43) = ''2:05.67''"
    by (simp add: time_eval fl_eval)
  show ?thesis
    unfolding x using dbl lo hi fmt C4_time_round_trip [OF dbl lo hi] by simp
qed

end
